theory Spec2Isabelle
  imports Main "HOL-Library.Word" "HOL-Library.AList"
begin

section \<open>JavaScript values\<close>

text \<open>
  The client is JavaScript, so the data it handles is dynamically typed. A Buffer is a list
  of bytes; a string is a sequence of UTF-16 code units; a number is modelled by an
  integer (sizes and day counts; fractions and NaN are not represented); an object is an
  association list from property names to values, in insertion order. Property names are
  the ASCII identifiers of the source and are kept as HOL strings.
\<close>

type_synonym byte = "8 word"
type_synonym jsstring = "16 word list"

definition js :: "string \<Rightarrow> jsstring" where
  "js s = map of_char s"

datatype jsval =
    JUndefined
  | JNull
  | JBool bool
  | JNum int
  | JStr jsstring
  | JArr "jsval list"
  | JObj "(string \<times> jsval) list"
  | JBuf "byte list"

type_synonym obj = "(string \<times> jsval) list"

text \<open>ToBoolean: what \<open>!v\<close>, \<open>a || b\<close> and \<open>a && b\<close> test.\<close>

fun truthy :: "jsval \<Rightarrow> bool" where
  "truthy JUndefined = False"
| "truthy JNull = False"
| "truthy (JBool b) = b"
| "truthy (JNum n) = (n \<noteq> 0)"
| "truthy (JStr s) = (s \<noteq> [])"
| "truthy (JArr xs) = True"
| "truthy (JObj kvs) = True"
| "truthy (JBuf b) = True"

text \<open>\<open>a || b\<close>\<close>

definition js_or :: "jsval \<Rightarrow> jsval \<Rightarrow> jsval" where
  "js_or a b = (if truthy a then a else b)"

text \<open>Reading a property \<open>o.k\<close> of an object: \<open>undefined\<close> when the key is absent.\<close>

definition js_get :: "obj \<Rightarrow> string \<Rightarrow> jsval" where
  "js_get ob k = (case map_of ob k of None \<Rightarrow> JUndefined | Some v \<Rightarrow> v)"

text \<open>
  \<open>v.length\<close> of a truthy value: the number of code units of a string, the number of
  elements of an array, the property called \<open>length\<close> of an object, the number of bytes
  of a Buffer, and \<open>undefined\<close> on numbers and booleans.
\<close>

fun js_length :: "jsval \<Rightarrow> jsval" where
  "js_length (JStr s) = JNum (int (length s))"
| "js_length (JArr xs) = JNum (int (length xs))"
| "js_length (JObj kvs) = js_get kvs ''length''"
| "js_length (JBuf b) = JNum (int (length b))"
| "js_length v = JUndefined"

section \<open>Buffers: base64 and UTF-8\<close>

text \<open>
  \<open>Buffer\<close>, \<open>buf.toString('base64')\<close>, \<open>Buffer.from(string, 'base64')\<close>,
  \<open>Buffer.from(string)\<close> and \<open>buf.toString()\<close> belong to the Node.js runtime. They are
  modelled as the runtime documents them: base64 of RFC 4648 with \<open>=\<close> padding on
  output; a forgiving decoder that looks at the low byte of each code unit, also accepts
  the URL-safe alphabet, skips every other character and stops at the first \<open>=\<close>; UTF-8
  with U+FFFD for an unpaired surrogate when writing and for each ill-formed byte sequence
  when reading.
\<close>

text \<open>The base64 alphabet: \<open>A-Z\<close>, \<open>a-z\<close>, \<open>0-9\<close>, \<open>+\<close>, \<open>/\<close>.\<close>

definition b64char :: "nat \<Rightarrow> 16 word" where
  "b64char i = of_nat (if i < 26 then 65 + i else if i < 52 then 71 + i
                       else if i < 62 then i - 4 else if i = 62 then 43 else 47)"

text \<open>\<open>buf.toString('base64')\<close>: three bytes become four characters.\<close>

fun base64_encode :: "byte list \<Rightarrow> jsstring" where
  "base64_encode [] = []"
| "base64_encode [a] =
     [b64char (unat a div 4), b64char (unat a mod 4 * 16), 61, 61]"
| "base64_encode [a, b] =
     [b64char (unat a div 4), b64char (unat a mod 4 * 16 + unat b div 16),
      b64char (unat b mod 16 * 4), 61]"
| "base64_encode (a # b # c # rest) =
     [b64char (unat a div 4), b64char (unat a mod 4 * 16 + unat b div 16),
      b64char (unat b mod 16 * 4 + unat c div 64), b64char (unat c mod 64)]
     @ base64_encode rest"

text \<open>
  \<open>Buffer.from(s, 'base64')\<close>: the value of a character, if it is in the alphabet. The
  decoder reads each code unit as an unsigned byte, so only its low byte counts.
\<close>

definition unbase64 :: "16 word \<Rightarrow> nat option" where
  "unbase64 u =
     (let c = unat u mod 256 in
      if 65 \<le> c \<and> c \<le> 90 then Some (c - 65)
      else if 97 \<le> c \<and> c \<le> 122 then Some (c - 71)
      else if 48 \<le> c \<and> c \<le> 57 then Some (c + 4)
      else if c = 43 \<or> c = 45 then Some 62
      else if c = 47 \<or> c = 95 then Some 63
      else None)"

fun b64_sextets :: "jsstring \<Rightarrow> nat list" where
  "b64_sextets [] = []"
| "b64_sextets (u # us) =
     (case unbase64 u of
        Some v \<Rightarrow> v # b64_sextets us
      | None \<Rightarrow> if unat u mod 256 = 61 then [] else b64_sextets us)"

fun b64_bytes :: "nat list \<Rightarrow> byte list" where
  "b64_bytes (s1 # s2 # s3 # s4 # rest) =
     [of_nat (s1 * 4 + s2 div 16), of_nat (s2 mod 16 * 16 + s3 div 4),
      of_nat (s3 mod 4 * 64 + s4)] @ b64_bytes rest"
| "b64_bytes [s1, s2, s3] =
     [of_nat (s1 * 4 + s2 div 16), of_nat (s2 mod 16 * 16 + s3 div 4)]"
| "b64_bytes [s1, s2] = [of_nat (s1 * 4 + s2 div 16)]"
| "b64_bytes ss = []"

definition base64_decode :: "jsstring \<Rightarrow> byte list" where
  "base64_decode s = b64_bytes (b64_sextets s)"

text \<open>Surrogate code units.\<close>

definition is_high :: "16 word \<Rightarrow> bool" where
  "is_high u = (55296 \<le> unat u \<and> unat u \<le> 56319)"

definition is_low :: "16 word \<Rightarrow> bool" where
  "is_low u = (56320 \<le> unat u \<and> unat u \<le> 57343)"

text \<open>The UTF-8 bytes of one code point.\<close>

definition utf8_bytes :: "nat \<Rightarrow> byte list" where
  "utf8_bytes cp =
     (if cp < 128 then [of_nat cp]
      else if cp < 2048 then [of_nat (192 + cp div 64), of_nat (128 + cp mod 64)]
      else if cp < 65536 then
        [of_nat (224 + cp div 64 div 64), of_nat (128 + cp div 64 mod 64),
         of_nat (128 + cp mod 64)]
      else
        [of_nat (240 + cp div 64 div 64 div 64), of_nat (128 + cp div 64 div 64 mod 64),
         of_nat (128 + cp div 64 mod 64), of_nat (128 + cp mod 64)])"

definition replacement :: "byte list" where
  "replacement = [239, 191, 189]"

text \<open>\<open>Buffer.from(s)\<close>: the UTF-8 bytes of a string.\<close>

fun utf8_write :: "jsstring \<Rightarrow> byte list" where
  "utf8_write [] = []"
| "utf8_write (u # us) =
     (if is_high u then
        (case us of
           [] \<Rightarrow> replacement
         | v # vs \<Rightarrow>
             if is_low v
             then utf8_bytes (65536 + (unat u - 55296) * 1024 + (unat v - 56320))
                  @ utf8_write vs
             else replacement @ utf8_write us)
      else if is_low u then replacement @ utf8_write us
      else utf8_bytes (unat u) @ utf8_write us)"

text \<open>The code units of one code point.\<close>

definition utf16_units :: "nat \<Rightarrow> jsstring" where
  "utf16_units cp =
     (if cp < 65536 then [of_nat cp]
      else [of_nat (55296 + (cp - 65536) div 1024), of_nat (56320 + (cp - 65536) mod 1024)])"

definition cont :: "byte \<Rightarrow> bool" where
  "cont b = (128 \<le> unat b \<and> unat b \<le> 191)"

definition second_ok :: "nat \<Rightarrow> byte \<Rightarrow> bool" where
  "second_ok n0 b =
     ((if n0 = 224 then 160 else if n0 = 240 then 144 else 128) \<le> unat b \<and>
      unat b \<le> (if n0 = 237 then 159 else if n0 = 244 then 143 else 191))"

text \<open>
  \<open>buf.toString()\<close>: the string of UTF-8 bytes. An ill-formed sequence gives U+FFFD
  (65533) and decoding resumes at the byte that did not fit.
\<close>

fun utf8_decode :: "byte list \<Rightarrow> jsstring" where
  "utf8_decode [] = []"
| "utf8_decode (b0 # bs) =
     (let n0 = unat b0 in
      if n0 < 128 then of_nat n0 # utf8_decode bs
      else if 194 \<le> n0 \<and> n0 \<le> 223 then
        (case bs of
           [] \<Rightarrow> [65533]
         | b1 # r1 \<Rightarrow>
             if cont b1
             then utf16_units ((n0 - 192) * 64 + (unat b1 - 128)) @ utf8_decode r1
             else 65533 # utf8_decode bs)
      else if 224 \<le> n0 \<and> n0 \<le> 239 then
        (case bs of
           [] \<Rightarrow> [65533]
         | b1 # r1 \<Rightarrow>
             if second_ok n0 b1 then
               (case r1 of
                  [] \<Rightarrow> [65533]
                | b2 # r2 \<Rightarrow>
                    if cont b2
                    then utf16_units (((n0 - 224) * 64 + (unat b1 - 128)) * 64
                                      + (unat b2 - 128)) @ utf8_decode r2
                    else 65533 # utf8_decode r1)
             else 65533 # utf8_decode bs)
      else if 240 \<le> n0 \<and> n0 \<le> 244 then
        (case bs of
           [] \<Rightarrow> [65533]
         | b1 # r1 \<Rightarrow>
             if second_ok n0 b1 then
               (case r1 of
                  [] \<Rightarrow> [65533]
                | b2 # r2 \<Rightarrow>
                    if cont b2 then
                      (case r2 of
                         [] \<Rightarrow> [65533]
                       | b3 # r3 \<Rightarrow>
                           if cont b3
                           then utf16_units ((((n0 - 240) * 64 + (unat b1 - 128)) * 64
                                              + (unat b2 - 128)) * 64 + (unat b3 - 128))
                                @ utf8_decode r3
                           else 65533 # utf8_decode r2)
                    else 65533 # utf8_decode r1)
             else 65533 # utf8_decode bs)
      else 65533 # utf8_decode bs)"

text \<open>Well-formed UTF-8 (the Unicode standard, table 3-7).\<close>

fun valid_utf8 :: "byte list \<Rightarrow> bool" where
  "valid_utf8 [] = True"
| "valid_utf8 (b0 # bs) =
     (let n0 = unat b0 in
      if n0 < 128 then valid_utf8 bs
      else if 194 \<le> n0 \<and> n0 \<le> 223 then
        (case bs of b1 # r1 \<Rightarrow> cont b1 \<and> valid_utf8 r1 | _ \<Rightarrow> False)
      else if 224 \<le> n0 \<and> n0 \<le> 239 then
        (case bs of
           b1 # b2 # r2 \<Rightarrow> second_ok n0 b1 \<and> cont b2 \<and> valid_utf8 r2
         | _ \<Rightarrow> False)
      else if 240 \<le> n0 \<and> n0 \<le> 244 then
        (case bs of
           b1 # b2 # b3 # r3 \<Rightarrow> second_ok n0 b1 \<and> cont b2 \<and> cont b3 \<and> valid_utf8 r3
         | _ \<Rightarrow> False)
      else False)"


text \<open>A string without unpaired surrogates.\<close>

fun well_formed :: "jsstring \<Rightarrow> bool" where
  "well_formed [] = True"
| "well_formed (u # us) =
     (if is_high u then (case us of [] \<Rightarrow> False | v # vs \<Rightarrow> is_low v \<and> well_formed vs)
      else \<not> is_low u \<and> well_formed us)"

section \<open>Errors and promises\<close>

text \<open>
  \<open>class FBUserFileStoreClientError extends FBJWTClient.prototype.ErrorClass\<close>: the one
  application error, carrying a code (a number for request errors, a string for
  configuration errors) and a message. A \<open>TypeError\<close> is what the runtime raises when
  it meets a value of the wrong type, a \<open>SystemError\<close> what \<open>fs.readFile\<close> fails with.
\<close>

datatype err_code = CodeNum int | CodeStr string

datatype js_error =
    FBUserFileStoreClientError err_code string
  | TypeError
  | SystemError string

text \<open>A settled promise. A function that can also throw before it returns its promise
  has the result type \<open>js_error + 'a promise\<close>.\<close>

datatype 'a promise = Resolved 'a | Rejected js_error

text \<open>\<open>p.then(f)\<close>: a rejection passes through; the callback's promise is adopted.\<close>

definition promise_then :: "'a promise \<Rightarrow> ('a \<Rightarrow> 'b promise) \<Rightarrow> 'b promise" where
  "promise_then p f = (case p of Rejected e \<Rightarrow> Rejected e | Resolved v \<Rightarrow> f v)"

section \<open>The base client\<close>

text \<open>
  \<open>FBUserfilestoreClient extends FBJWTClient\<close>, a class of the package
  \<open>@ministryofjustice/fb-jwt-client-node\<close>. Its fields are the four required
  constructor arguments.
\<close>

record jwt_client =
  serviceSecret :: jsstring
  serviceToken :: jsstring
  serviceSlug :: jsstring
  serviceUrl :: jsstring

text \<open>
  Modelled from the spec: the constructor of the base class \<open>FBJWTClient\<close>, which
  \<open>super(serviceSecret, serviceToken, serviceSlug, userFileStoreUrl,
  FBUserFileStoreClientError)\<close> calls and whose source is outside this repository. It fails
  with a client-configuration error when one of the four arguments is missing, in the
  order secret, token, slug, base URL; the codes are those of the spec, the messages those
  the repository's tests expect. A missing argument is \<open>None\<close>.
\<close>

definition FBJWTClient_constructor ::
  "jsstring option \<Rightarrow> jsstring option \<Rightarrow> jsstring option \<Rightarrow> jsstring option
    \<Rightarrow> js_error + jwt_client" where
  "FBJWTClient_constructor secret token slug url =
     (case secret of
        None \<Rightarrow> Inl (FBUserFileStoreClientError (CodeStr ''ENOSERVICESECRET'')
                      ''No service secret passed to client'')
      | Some sec \<Rightarrow>
     (case token of
        None \<Rightarrow> Inl (FBUserFileStoreClientError (CodeStr ''ENOSERVICETOKEN'')
                      ''No service token passed to client'')
      | Some tok \<Rightarrow>
     (case slug of
        None \<Rightarrow> Inl (FBUserFileStoreClientError (CodeStr ''ENOSERVICESLUG'')
                      ''No service slug passed to client'')
      | Some slg \<Rightarrow>
     (case url of
        None \<Rightarrow> Inl (FBUserFileStoreClientError (CodeStr ''ENOMICROSERVICEURL'')
                      ''No microservice url passed to client'')
      | Some u \<Rightarrow>
          Inr \<lparr>serviceSecret = sec, serviceToken = tok, serviceSlug = slg,
               serviceUrl = u\<rparr>))))"

text \<open>
  Modelled from the spec: \<open>throwRequestError(code, message)\<close> of the base class, which
  raises the shared application error carrying the code and the message.
\<close>

definition throwRequestError :: "int \<Rightarrow> string \<Rightarrow> js_error" where
  "throwRequestError c m = FBUserFileStoreClientError (CodeNum c) m"

section \<open>The user filestore client\<close>

text \<open>endpoint urls\<close>

definition endpoints_fetch :: string where
  "endpoints_fetch = ''/service/:serviceSlug/user/:userId/:fingerprint''"

definition endpoints_store :: string where
  "endpoints_store = ''/service/:serviceSlug/user/:userId''"

text \<open>defaults - can be overridden in constructor\<close>

definition defaultMaxSize :: int where
  "defaultMaxSize = 10 * 1024 * 1024"

definition defaultExpires :: int where
  "defaultExpires = 28"

record client = jwt_client +
  maxSize :: jsval
  expires :: jsval

text \<open>
  \<open>constructor (serviceSecret, serviceToken, serviceSlug, userFileStoreUrl, options = {})\<close>.
  The default parameter replaces an omitted \<open>options\<close> (\<open>None\<close>) by the empty object.
\<close>

definition constructor ::
  "jsstring option \<Rightarrow> jsstring option \<Rightarrow> jsstring option \<Rightarrow> jsstring option
    \<Rightarrow> obj option \<Rightarrow> js_error + client" where
  "constructor secret token slug url opts =
     (let options = (case opts of None \<Rightarrow> [] | Some ob \<Rightarrow> ob) in
      case FBJWTClient_constructor secret token slug url of
        Inl e \<Rightarrow> Inl e
      | Inr base \<Rightarrow>
          Inr \<lparr>serviceSecret = serviceSecret base, serviceToken = serviceToken base,
               serviceSlug = serviceSlug base, serviceUrl = serviceUrl base,
               maxSize = js_or (js_get options ''maxSize'') (JNum defaultMaxSize),
               expires = js_or (js_get options ''expires'') (JNum defaultExpires)\<rparr>)"

text \<open>
  The transport of the base class, which the client calls through \<open>this\<close>:
  \<open>encryptUserIdAndToken(userId, userToken)\<close>, \<open>sendGet({url, context, payload}, logger)\<close>
  and \<open>sendPost({url, context, payload}, logger)\<close>. The client passes them a request and
  the logger and gets back a promise of the decoded JSON body, a mapping.
\<close>

record request =
  req_url :: string
  req_context :: obj
  req_payload :: obj

record transport =
  encryptUserIdAndToken :: "jsval \<Rightarrow> jsval \<Rightarrow> jsval"
  sendGet :: "request \<Rightarrow> jsval \<Rightarrow> obj promise"
  sendPost :: "request \<Rightarrow> jsval \<Rightarrow> obj promise"

text \<open>
  The \<open>args\<close> object of \<open>fetch\<close>, \<open>store\<close> and \<open>storeFromPath\<close>. A file is a string or a
  Buffer (\<open>@param {string|buffer} args.file\<close>), absent when the caller gives none; a policy
  is an object, absent when the caller gives none. The field \<open>file\<close> is written
  \<open>file'\<close>.
\<close>

datatype file_arg = FileString jsstring | FileBuffer "byte list"

record args =
  userId :: jsval
  userToken :: jsval
  fingerprint :: jsval
  file' :: "file_arg option"
  policy :: "obj option"

subsection \<open>fetch\<close>

definition fetch_request :: "transport \<Rightarrow> client \<Rightarrow> args \<Rightarrow> request" where
  "fetch_request t c a =
     \<lparr>req_url = endpoints_fetch,
      req_context = [(''serviceSlug'', JStr (serviceSlug c)), (''userId'', userId a),
                     (''fingerprint'', fingerprint a)],
      req_payload = [(''encrypted_user_id_and_token'',
                      encryptUserIdAndToken t (userId a) (userToken a))]\<rparr>"

text \<open>
  \<open>Buffer.from(array)\<close> takes each element as a number modulo 256: a number is itself,
  \<open>true\<close> is 1, \<open>false\<close> and \<open>null\<close> are 0, and \<open>undefined\<close> and a plain object are NaN
  and give 0. A string, an array or a Buffer as an element would first be turned into a
  string and parsed as a number; that conversion is not modelled and such an element is
  taken as NaN.
\<close>

fun to_uint8 :: "jsval \<Rightarrow> byte" where
  "to_uint8 (JNum n) = of_int n"
| "to_uint8 (JBool b) = (if b then 1 else 0)"
| "to_uint8 v = 0"

text \<open>
  The callback \<open>json => Buffer.from(json.file, 'base64').toString()\<close>. The transport's
  contract is a mapping whose \<open>file\<close> is a base64 string. \<open>Buffer.from\<close> copies a Buffer
  or an array and ignores the encoding; on \<open>undefined\<close>, \<open>null\<close>, a number or a boolean it
  raises a TypeError, which rejects the promise. An object in that place is outside the
  contract and is not told apart from these.
\<close>

definition fetch_then :: "obj \<Rightarrow> jsstring promise" where
  "fetch_then json =
     (case js_get json ''file'' of
        JStr f \<Rightarrow> Resolved (utf8_decode (base64_decode f))
      | JBuf b \<Rightarrow> Resolved (utf8_decode b)
      | JArr xs \<Rightarrow> Resolved (utf8_decode (map to_uint8 xs))
      | _ \<Rightarrow> Rejected TypeError)"

definition fetch :: "transport \<Rightarrow> client \<Rightarrow> args \<Rightarrow> jsval \<Rightarrow> jsstring promise" where
  "fetch t c a logger = promise_then (sendGet t (fetch_request t c a) logger) fetch_then"

subsection \<open>store\<close>

text \<open>
  \<open>if (!file.buffer) { file = Buffer.from(file) }; file = file.toString('base64')\<close>.
  A Buffer has a \<open>buffer\<close> property and is kept, a string has none and is written as
  UTF-8; reading \<open>buffer\<close> of a file that is not there raises a TypeError.
\<close>

definition store_file :: "file_arg option \<Rightarrow> js_error + jsstring" where
  "store_file f =
     (case f of
        None \<Rightarrow> Inl TypeError
      | Some (FileString s) \<Rightarrow> Inr (base64_encode (utf8_write s))
      | Some (FileBuffer b) \<Rightarrow> Inr (base64_encode b))"

text \<open>
  \<open>policy = Object.assign({}, policy)\<close>, then the two defaults and the removal of an empty
  \<open>allowed_types\<close>. Assigning to a property keeps its place or appends it.
\<close>

definition store_policy :: "client \<Rightarrow> obj option \<Rightarrow> obj" where
  "store_policy c pol =
     (let p0 = (case pol of None \<Rightarrow> [] | Some ob \<Rightarrow> ob);
          p1 = (if \<not> truthy (js_get p0 ''max_size'')
                then AList.update ''max_size'' (maxSize c) p0 else p0);
          p2 = (if \<not> truthy (js_get p1 ''expires'')
                then AList.update ''expires'' (expires c) p1 else p1)
      in if truthy (js_get p2 ''allowed_types'')
            \<and> js_length (js_get p2 ''allowed_types'') = JNum 0
         then AList.delete ''allowed_types'' p2 else p2)"

text \<open>The request \<open>{url, context, payload}\<close> that \<open>store\<close> hands to \<open>sendPost\<close>.\<close>

definition store_request :: "transport \<Rightarrow> client \<Rightarrow> args \<Rightarrow> js_error + request" where
  "store_request t c a =
     (case store_file (file' a) of
        Inl e \<Rightarrow> Inl e
      | Inr f \<Rightarrow>
          Inr \<lparr>req_url = endpoints_store,
               req_context = [(''serviceSlug'', JStr (serviceSlug c)), (''userId'', userId a)],
               req_payload = [(''encrypted_user_id_and_token'',
                               encryptUserIdAndToken t (userId a) (userToken a)),
                              (''file'', JStr f),
                              (''policy'', JObj (store_policy c (policy a)))]\<rparr>)"

text \<open>The callback on the result: useless if no fingerprint returned.\<close>

definition store_then :: "obj \<Rightarrow> obj promise" where
  "store_then result =
     (if \<not> truthy (js_get result ''fingerprint'')
      then Rejected (throwRequestError 500 ''ENOFINGERPRINT'')
      else Resolved result)"

text \<open>\<open>store (args, logger)\<close>: \<open>Inl\<close> is an exception thrown before a promise exists.\<close>

definition store :: "transport \<Rightarrow> client \<Rightarrow> args \<Rightarrow> jsval \<Rightarrow> js_error + obj promise" where
  "store t c a logger =
     (case store_request t c a of
        Inl e \<Rightarrow> Inl e
      | Inr req \<Rightarrow> Inr (promise_then (sendPost t req logger) store_then))"

subsection \<open>storeFromPath\<close>

text \<open>
  \<open>readFile(filePath).then(file => { args.file = file; this.store(args, logger) })\<close>.
  The filesystem is a function from a path to the bytes of the file or to the error of
  the read. The callback has a block body without \<open>return\<close>: it assigns the file, calls
  \<open>store\<close> and yields \<open>undefined\<close>; the promise that \<open>store\<close> returned is left on its own.
  The outcome records the promise returned to the caller, the \<open>args\<close> object after the
  call, and what the call to \<open>store\<close> produced (\<open>None\<close> when it was not reached).
\<close>

record path_outcome =
  returned :: "jsval promise"
  args_after :: args
  store_call :: "(js_error + obj promise) option"

definition storeFromPath ::
  "(jsstring \<Rightarrow> js_error + byte list) \<Rightarrow> transport \<Rightarrow> client \<Rightarrow> jsstring \<Rightarrow> args \<Rightarrow> jsval
    \<Rightarrow> path_outcome" where
  "storeFromPath readFile t c filePath a logger =
     (case readFile filePath of
        Inl e \<Rightarrow> \<lparr>returned = Rejected e, args_after = a, store_call = None\<rparr>
      | Inr bytes \<Rightarrow>
          (let a' = a\<lparr>file' := Some (FileBuffer bytes)\<rparr>;
               r = store t c a' logger
           in \<lparr>returned = (case r of Inl e \<Rightarrow> Rejected e | Inr p \<Rightarrow> Resolved JUndefined),
               args_after = a', store_call = Some r\<rparr>))"

section \<open>Test doubles\<close>

text \<open>
  The values of the repository's tests: a client built from the test constants, a
  transport whose \<open>sendGet\<close> and \<open>sendPost\<close> are stubs settled with a given outcome, and
  a filesystem holding one file.
\<close>

definition userFileStoreClient :: client where
  "userFileStoreClient =
     \<lparr>serviceSecret = js ''testServiceSecret'', serviceToken = js ''testServiceToken'',
      serviceSlug = js ''testServiceSlug'', serviceUrl = js ''http://localhost:8080'',
      maxSize = JNum 10485760, expires = JNum 28\<rparr>"

definition stub_transport :: "obj promise \<Rightarrow> obj promise \<Rightarrow> transport" where
  "stub_transport got posted =
     \<lparr>encryptUserIdAndToken = (\<lambda>uid tok. JObj [(''payload'', JStr (js ''mock payload''))]),
      sendGet = (\<lambda>req logger. got),
      sendPost = (\<lambda>req logger. posted)\<rparr>"

text \<open>A transport whose \<open>sendPost\<close> answers with a fingerprint and the payload it was sent.\<close>

definition echo_transport :: transport where
  "echo_transport =
     \<lparr>encryptUserIdAndToken = (\<lambda>uid tok. JObj [(''payload'', JStr (js ''mock payload''))]),
      sendGet = (\<lambda>req logger. Resolved []),
      sendPost = (\<lambda>req logger.
        Resolved ((''fingerprint'', JStr (js ''fp1'')) # req_payload req))\<rparr>"

definition test_args :: "file_arg option \<Rightarrow> obj option \<Rightarrow> args" where
  "test_args f pol =
     \<lparr>userId = JStr (js ''testUserId''), userToken = JStr (js ''testUserToken''),
      fingerprint = JStr (js ''31-x9323s39amdsa''), file' = f, policy = pol\<rparr>"

definition test_readFile :: "jsstring \<Rightarrow> js_error + byte list" where
  "test_readFile p =
     (if p = js ''test-data/test-file'' then Inr (utf8_write (js ''testFileContents''))
      else Inl (SystemError ''ENOENT''))"

section \<open>Properties of the runtime functions\<close>

lemma unat_unit: "n < 65536 \<Longrightarrow> unat (of_nat n :: 16 word) = n"
  by (simp add: unat_of_nat)
lemma unat_byte: "n < 256 \<Longrightarrow> unat (of_nat n :: byte) = n"
  by (simp add: unat_of_nat)
lemma byte_bound: "unat (b :: byte) < 256"
  using unsigned_less [of b] by simp
lemma unit_bound: "unat (u :: 16 word) < 65536"
  using unsigned_less [of u] by simp

subsection \<open>base64\<close>

lemma unat_b64char:
  "i < 64 \<Longrightarrow> unat (b64char i) =
     (if i < 26 then 65 + i else if i < 52 then 71 + i
      else if i < 62 then i - 4 else if i = 62 then 43 else 47)"
  unfolding b64char_def by (rule unat_unit) auto

lemma unbase64_b64char: "i < 64 \<Longrightarrow> unbase64 (b64char i) = Some i"
proof -
  assume i: "i < 64"
  then have "unat (b64char i) < 256"
    by (simp only: unat_b64char) auto
  then have "unat (b64char i) mod 256 = unat (b64char i)"
    by simp
  then show ?thesis
    unfolding unbase64_def Let_def using i by (simp only: unat_b64char) auto
qed

lemma sextets_b64char:
  "i < 64 \<Longrightarrow> b64_sextets (b64char i # us) = i # b64_sextets us"
  by (simp add: unbase64_b64char)

lemma sextets_pad: "b64_sextets (61 # us) = []"
  by (simp add: unbase64_def)

lemma sextet_bounds:
  fixes a b c :: byte
  shows "unat a div 4 < 64" "unat a mod 4 * 16 < 64"
    "unat a mod 4 * 16 + unat b div 16 < 64" "unat b mod 16 * 4 < 64"
    "unat b mod 16 * 4 + unat c div 64 < 64" "unat c mod 64 < 64"
  using byte_bound [of a] byte_bound [of b] byte_bound [of c] by simp_all

lemma regroup:
  fixes a b c :: byte
  shows "of_nat (unat a div 4 * 4 + (unat a mod 4 * 16 + unat b div 16) div 16) = a"
    "of_nat ((unat a mod 4 * 16 + unat b div 16) mod 16 * 16
             + (unat b mod 16 * 4 + unat c div 64) div 4) = b"
    "of_nat ((unat b mod 16 * 4 + unat c div 64) mod 4 * 64 + unat c mod 64) = c"
    "of_nat (unat a div 4 * 4 + (unat a mod 4 * 16) div 16) = a"
    "of_nat ((unat a mod 4 * 16 + unat b div 16) mod 16 * 16 + (unat b mod 16 * 4) div 4) = b"
  using byte_bound [of a] byte_bound [of b] byte_bound [of c] by simp_all

lemma base64_roundtrip: "base64_decode (base64_encode bs) = bs"
  unfolding base64_decode_def
proof (induction bs rule: base64_encode.induct)
  case 1
  show ?case by simp
next
  case (2 a)
  show ?case
    by (simp only: base64_encode.simps sextets_b64char sextet_bounds sextets_pad
        b64_bytes.simps regroup)
next
  case (3 a b)
  show ?case
    by (simp only: base64_encode.simps sextets_b64char sextet_bounds sextets_pad
        b64_bytes.simps regroup)
next
  case (4 a b c rest)
  have "b64_sextets (base64_encode (a # b # c # rest)) =
          unat a div 4 # (unat a mod 4 * 16 + unat b div 16)
          # (unat b mod 16 * 4 + unat c div 64) # unat c mod 64
          # b64_sextets (base64_encode rest)"
    by (simp only: base64_encode.simps append.simps sextets_b64char sextet_bounds)
  then show ?case using 4
    by (simp only: b64_bytes.simps regroup append.simps)
qed

subsection \<open>UTF-8\<close>

lemma decode_one:
  "unat b0 < 128 \<Longrightarrow> utf8_decode (b0 # bs) = of_nat (unat b0) # utf8_decode bs"
  by (simp add: Let_def)

lemma decode_two:
  "194 \<le> unat b0 \<Longrightarrow> unat b0 \<le> 223 \<Longrightarrow> cont b1 \<Longrightarrow>
   utf8_decode (b0 # b1 # r) =
     utf16_units ((unat b0 - 192) * 64 + (unat b1 - 128)) @ utf8_decode r"
  by (simp add: Let_def)

lemma decode_three:
  "224 \<le> unat b0 \<Longrightarrow> unat b0 \<le> 239 \<Longrightarrow> second_ok (unat b0) b1 \<Longrightarrow> cont b2 \<Longrightarrow>
   utf8_decode (b0 # b1 # b2 # r) =
     utf16_units (((unat b0 - 224) * 64 + (unat b1 - 128)) * 64 + (unat b2 - 128))
     @ utf8_decode r"
  by (simp add: Let_def)

lemma decode_four:
  "240 \<le> unat b0 \<Longrightarrow> unat b0 \<le> 244 \<Longrightarrow> second_ok (unat b0) b1 \<Longrightarrow> cont b2 \<Longrightarrow>
   cont b3 \<Longrightarrow>
   utf8_decode (b0 # b1 # b2 # b3 # r) =
     utf16_units ((((unat b0 - 240) * 64 + (unat b1 - 128)) * 64 + (unat b2 - 128)) * 64
                  + (unat b3 - 128))
     @ utf8_decode r"
  by (simp add: Let_def)

lemma bytes1_shape:
  assumes "cp < 128"
  obtains b0 where "utf8_bytes cp = [b0]" "unat b0 = cp"
proof
  show "utf8_bytes cp = [of_nat cp]"
    using assms by (simp add: utf8_bytes_def)
  show "unat (of_nat cp :: byte) = cp"
    using assms by (intro unat_byte) simp
qed

lemma bytes2_shape:
  assumes "128 \<le> cp" "cp < 2048"
  obtains b0 b1 where "utf8_bytes cp = [b0, b1]" "194 \<le> unat b0" "unat b0 \<le> 223" "cont b1"
    "(unat b0 - 192) * 64 + (unat b1 - 128) = cp"
proof
  have n0: "unat (of_nat (192 + cp div 64) :: byte) = 192 + cp div 64"
    using assms by (intro unat_byte) simp
  have n1: "unat (of_nat (128 + cp mod 64) :: byte) = 128 + cp mod 64"
    by (intro unat_byte) simp
  show "utf8_bytes cp = [of_nat (192 + cp div 64), of_nat (128 + cp mod 64)]"
    using assms by (simp add: utf8_bytes_def)
  show "194 \<le> unat (of_nat (192 + cp div 64) :: byte)"
    "unat (of_nat (192 + cp div 64) :: byte) \<le> 223"
    unfolding n0 using assms by simp_all
  show "cont (of_nat (128 + cp mod 64))"
    unfolding cont_def n1 by simp
  show "(unat (of_nat (192 + cp div 64) :: byte) - 192) * 64
        + (unat (of_nat (128 + cp mod 64) :: byte) - 128) = cp"
    unfolding n0 n1 by simp
qed

lemma valid_two:
  "194 \<le> unat b0 \<Longrightarrow> unat b0 \<le> 223 \<Longrightarrow> cont b1 \<Longrightarrow>
   valid_utf8 (b0 # b1 # r) = valid_utf8 r"
  by (simp add: Let_def)

lemma valid_three:
  "224 \<le> unat b0 \<Longrightarrow> unat b0 \<le> 239 \<Longrightarrow> second_ok (unat b0) b1 \<Longrightarrow> cont b2 \<Longrightarrow>
   valid_utf8 (b0 # b1 # b2 # r) = valid_utf8 r"
  by (simp add: Let_def)

lemma valid_four:
  "240 \<le> unat b0 \<Longrightarrow> unat b0 \<le> 244 \<Longrightarrow> second_ok (unat b0) b1 \<Longrightarrow> cont b2 \<Longrightarrow>
   cont b3 \<Longrightarrow> valid_utf8 (b0 # b1 # b2 # b3 # r) = valid_utf8 r"
  by (simp add: Let_def)

lemma valid_replacement: "valid_utf8 (replacement @ r) = valid_utf8 r"
  by (simp add: replacement_def second_ok_def cont_def)

lemma units_of_unit:
  "utf16_units (unat (u :: 16 word)) = [u]"
  using unit_bound [of u] by (simp add: utf16_units_def)

lemma units_of_pair:
  assumes "is_high u" "is_low v"
  shows "utf16_units (65536 + (unat u - 55296) * 1024 + (unat v - 56320)) = [u, v]"
proof -
  define h where "h = unat u - 55296"
  define l where "l = unat v - 56320"
  have h: "h < 1024" "55296 + h = unat u"
    using assms(1) unfolding h_def is_high_def by linarith+
  have l: "l < 1024" "56320 + l = unat v"
    using assms(2) unfolding l_def is_low_def by linarith+
  have "(h * 1024 + l) div 1024 = h" "(h * 1024 + l) mod 1024 = l"
    using l by simp_all
  then have "utf16_units (65536 + h * 1024 + l) = [of_nat (unat u), of_nat (unat v)]"
    using h l by (simp add: utf16_units_def)
  then show ?thesis
    unfolding h_def l_def by simp
qed

lemma pair_range:
  assumes "is_high u" "is_low v"
  shows "65536 + (unat u - 55296) * 1024 + (unat v - 56320) < 1114112"
    "\<not> (55296 \<le> 65536 + (unat u - 55296) * 1024 + (unat v - 56320)
        \<and> 65536 + (unat u - 55296) * 1024 + (unat v - 56320) \<le> 57343)"
proof -
  have "unat u - 55296 \<le> 1023"
    using assms(1) unfolding is_high_def by linarith
  then have "(unat u - 55296) * 1024 \<le> 1023 * 1024"
    by (rule mult_le_mono1)
  then show "65536 + (unat u - 55296) * 1024 + (unat v - 56320) < 1114112"
    using assms(2) unfolding is_low_def by linarith
  show "\<not> (55296 \<le> 65536 + (unat u - 55296) * 1024 + (unat v - 56320)
        \<and> 65536 + (unat u - 55296) * 1024 + (unat v - 56320) \<le> 57343)"
    by simp
qed

lemma unit_range:
  assumes "\<not> is_high u" "\<not> is_low u"
  shows "unat u < 1114112" "\<not> (55296 \<le> unat u \<and> unat u \<le> 57343)"
  using assms unit_bound [of u] unfolding is_high_def is_low_def by linarith+

lemma bytes3_shape:
  assumes "2048 \<le> cp" "cp < 65536" "\<not> (55296 \<le> cp \<and> cp \<le> 57343)"
  obtains b0 b1 b2 where "utf8_bytes cp = [b0, b1, b2]" "224 \<le> unat b0" "unat b0 \<le> 239"
    "second_ok (unat b0) b1" "cont b2"
    "((unat b0 - 224) * 64 + (unat b1 - 128)) * 64 + (unat b2 - 128) = cp"
proof
  define q where "q = cp div 64"
  have "cp < 55296 \<or> 57344 \<le> cp"
    using assms by linarith
  moreover have "cp < 55296 \<Longrightarrow> q < 864" "57344 \<le> cp \<Longrightarrow> 896 \<le> q"
    unfolding q_def by simp_all
  ultimately have q3: "q < 864 \<or> 896 \<le> q"
    by blast
  have q: "32 \<le> q" "q < 1024"
    using assms unfolding q_def by simp_all
  have n0: "unat (of_nat (224 + q div 64) :: byte) = 224 + q div 64"
    using q by (intro unat_byte) simp
  have n1: "unat (of_nat (128 + q mod 64) :: byte) = 128 + q mod 64"
    by (intro unat_byte) simp
  have n2: "unat (of_nat (128 + cp mod 64) :: byte) = 128 + cp mod 64"
    by (intro unat_byte) simp
  show "utf8_bytes cp =
          [of_nat (224 + q div 64), of_nat (128 + q mod 64), of_nat (128 + cp mod 64)]"
    using assms by (simp add: utf8_bytes_def q_def)
  show "224 \<le> unat (of_nat (224 + q div 64) :: byte)"
    "unat (of_nat (224 + q div 64) :: byte) \<le> 239"
    unfolding n0 using q by simp_all
  have "q = q div 64 * 64 + q mod 64"
    by simp
  then have "q div 64 = 0 \<longrightarrow> 32 \<le> q mod 64" "q div 64 = 13 \<longrightarrow> q mod 64 \<le> 31"
    using q q3 by linarith+
  moreover have "q div 64 < 16"
    using q by simp
  ultimately show "second_ok (unat (of_nat (224 + q div 64) :: byte)) (of_nat (128 + q mod 64))"
    unfolding second_ok_def n0 n1 by auto
  show "cont (of_nat (128 + cp mod 64))"
    unfolding cont_def n2 by simp
  show "((unat (of_nat (224 + q div 64) :: byte) - 224) * 64
         + (unat (of_nat (128 + q mod 64) :: byte) - 128)) * 64
        + (unat (of_nat (128 + cp mod 64) :: byte) - 128) = cp"
    unfolding n0 n1 n2 by (simp add: q_def)
qed

lemma bytes4_shape:
  assumes "65536 \<le> cp" "cp < 1114112"
  obtains b0 b1 b2 b3 where "utf8_bytes cp = [b0, b1, b2, b3]" "240 \<le> unat b0"
    "unat b0 \<le> 244" "second_ok (unat b0) b1" "cont b2" "cont b3"
    "(((unat b0 - 240) * 64 + (unat b1 - 128)) * 64 + (unat b2 - 128)) * 64
     + (unat b3 - 128) = cp"
proof
  define q where "q = cp div 64"
  define p where "p = q div 64"
  have p: "16 \<le> p" "p < 272"
    using assms unfolding p_def q_def by simp_all
  have n0: "unat (of_nat (240 + p div 64) :: byte) = 240 + p div 64"
    using p by (intro unat_byte) simp
  have n1: "unat (of_nat (128 + p mod 64) :: byte) = 128 + p mod 64"
    by (intro unat_byte) simp
  have n2: "unat (of_nat (128 + q mod 64) :: byte) = 128 + q mod 64"
    by (intro unat_byte) simp
  have n3: "unat (of_nat (128 + cp mod 64) :: byte) = 128 + cp mod 64"
    by (intro unat_byte) simp
  show "utf8_bytes cp =
          [of_nat (240 + p div 64), of_nat (128 + p mod 64), of_nat (128 + q mod 64),
           of_nat (128 + cp mod 64)]"
    using assms by (simp add: utf8_bytes_def q_def p_def)
  show "240 \<le> unat (of_nat (240 + p div 64) :: byte)"
    "unat (of_nat (240 + p div 64) :: byte) \<le> 244"
    unfolding n0 using p by simp_all
  have "p = p div 64 * 64 + p mod 64"
    by simp
  then have "p div 64 = 0 \<longrightarrow> 16 \<le> p mod 64" "p div 64 = 4 \<longrightarrow> p mod 64 \<le> 15"
    using p by linarith+
  moreover have "p div 64 < 5"
    using p by simp
  ultimately show "second_ok (unat (of_nat (240 + p div 64) :: byte)) (of_nat (128 + p mod 64))"
    unfolding second_ok_def n0 n1 by auto
  show "cont (of_nat (128 + q mod 64))"
    unfolding cont_def n2 by simp
  show "cont (of_nat (128 + cp mod 64))"
    unfolding cont_def n3 by simp
  show "(((unat (of_nat (240 + p div 64) :: byte) - 240) * 64
          + (unat (of_nat (128 + p mod 64) :: byte) - 128)) * 64
         + (unat (of_nat (128 + q mod 64) :: byte) - 128)) * 64
        + (unat (of_nat (128 + cp mod 64) :: byte) - 128) = cp"
    unfolding n0 n1 n2 n3 by (simp add: q_def p_def)
qed

lemma decode_bytes:
  assumes "cp < 1114112" "\<not> (55296 \<le> cp \<and> cp \<le> 57343)"
  shows "utf8_decode (utf8_bytes cp @ rest) = utf16_units cp @ utf8_decode rest"
proof -
  consider "cp < 128" | "128 \<le> cp \<and> cp < 2048" | "2048 \<le> cp \<and> cp < 65536"
    | "65536 \<le> cp" by linarith
  then show ?thesis
  proof cases
    case 1
    then obtain b0 where "utf8_bytes cp = [b0]" "unat b0 = cp"
      by (rule bytes1_shape)
    with 1 show ?thesis
      by (simp add: decode_one utf16_units_def)
  next
    case 2
    then obtain b0 b1 where "utf8_bytes cp = [b0, b1]" "194 \<le> unat b0" "unat b0 \<le> 223"
      "cont b1" "(unat b0 - 192) * 64 + (unat b1 - 128) = cp"
      by (auto intro: bytes2_shape)
    then show ?thesis
      by (simp add: decode_two)
  next
    case 3
    with assms obtain b0 b1 b2 where "utf8_bytes cp = [b0, b1, b2]" "224 \<le> unat b0"
      "unat b0 \<le> 239" "second_ok (unat b0) b1" "cont b2"
      "((unat b0 - 224) * 64 + (unat b1 - 128)) * 64 + (unat b2 - 128) = cp"
      by (auto intro: bytes3_shape)
    then show ?thesis
      by (simp add: decode_three)
  next
    case 4
    with assms obtain b0 b1 b2 b3 where "utf8_bytes cp = [b0, b1, b2, b3]" "240 \<le> unat b0"
      "unat b0 \<le> 244" "second_ok (unat b0) b1" "cont b2" "cont b3"
      "(((unat b0 - 240) * 64 + (unat b1 - 128)) * 64 + (unat b2 - 128)) * 64
       + (unat b3 - 128) = cp"
      by (auto intro: bytes4_shape)
    then show ?thesis
      by (simp add: decode_four)
  qed
qed

lemma valid_bytes:
  assumes "cp < 1114112" "\<not> (55296 \<le> cp \<and> cp \<le> 57343)"
  shows "valid_utf8 (utf8_bytes cp @ rest) = valid_utf8 rest"
proof -
  consider "cp < 128" | "128 \<le> cp \<and> cp < 2048" | "2048 \<le> cp \<and> cp < 65536"
    | "65536 \<le> cp" by linarith
  then show ?thesis
  proof cases
    case 1
    then obtain b0 where "utf8_bytes cp = [b0]" "unat b0 = cp"
      by (rule bytes1_shape)
    with 1 show ?thesis
      by (simp add: Let_def)
  next
    case 2
    then obtain b0 b1 where "utf8_bytes cp = [b0, b1]" "194 \<le> unat b0" "unat b0 \<le> 223"
      "cont b1"
      by (auto intro: bytes2_shape)
    then show ?thesis
      by (simp add: valid_two)
  next
    case 3
    with assms obtain b0 b1 b2 where "utf8_bytes cp = [b0, b1, b2]" "224 \<le> unat b0"
      "unat b0 \<le> 239" "second_ok (unat b0) b1" "cont b2"
      by (auto intro: bytes3_shape)
    then show ?thesis
      by (simp add: valid_three)
  next
    case 4
    with assms obtain b0 b1 b2 b3 where "utf8_bytes cp = [b0, b1, b2, b3]" "240 \<le> unat b0"
      "unat b0 \<le> 244" "second_ok (unat b0) b1" "cont b2" "cont b3"
      by (auto intro: bytes4_shape)
    then show ?thesis
      by (simp add: valid_four)
  qed
qed

lemma valid_utf8_write: "valid_utf8 (utf8_write s)"
proof (induction s rule: utf8_write.induct)
  case 1
  show ?case by simp
next
  case (2 u us)
  show ?case
  proof (cases "is_high u")
    case True
    show ?thesis
    proof (cases us)
      case Nil
      with True show ?thesis
        using valid_replacement [of "[]"] by simp
    next
      case (Cons v vs)
      with True "2.IH"(1,2) show ?thesis
        by (cases "is_low v") (simp_all add: valid_bytes pair_range valid_replacement)
    qed
  next
    case False
    with "2.IH"(3,4) show ?thesis
      by (cases "is_low u") (simp_all add: valid_bytes unit_range valid_replacement)
  qed
qed

lemma utf8_decode_write: "well_formed s \<Longrightarrow> utf8_decode (utf8_write s) = s"
proof (induction s rule: utf8_write.induct)
  case 1
  show ?case by simp
next
  case (2 u us)
  show ?case
  proof (cases "is_high u")
    case True
    with "2.prems" obtain v vs where us: "us = v # vs" and v: "is_low v" and wf: "well_formed vs"
      by (cases us) simp_all
    have "utf8_decode (utf8_write vs) = vs"
      using "2.IH"(1) True us v wf by simp
    then show ?thesis
      using True us v by (simp add: decode_bytes pair_range units_of_pair)
  next
    case False
    with "2.prems" have lo: "\<not> is_low u" and wf: "well_formed us"
      by simp_all
    have "utf8_decode (utf8_write us) = us"
      using "2.IH"(4) False lo wf by simp
    then show ?thesis
      using False lo by (simp add: decode_bytes unit_range units_of_unit)
  qed
qed

lemma write_units:
  assumes "cp < 1114112" "\<not> (55296 \<le> cp \<and> cp \<le> 57343)"
  shows "utf8_write (utf16_units cp @ rest) = utf8_bytes cp @ utf8_write rest"
proof (cases "cp < 65536")
  case True
  then have u: "unat (of_nat cp :: 16 word) = cp"
    by (rule unat_unit)
  have "\<not> is_high (of_nat cp)" "\<not> is_low (of_nat cp)"
    unfolding is_high_def is_low_def u using assms by linarith+
  then show ?thesis
    using True u by (simp add: utf16_units_def)
next
  case False
  define x where "x = cp - 65536"
  have x: "x < 1048576" "cp = 65536 + x"
    using False assms unfolding x_def by linarith+
  have d: "x div 1024 < 1024" "x mod 1024 < 1024"
    using x by simp_all
  have hi: "unat (of_nat (55296 + x div 1024) :: 16 word) = 55296 + x div 1024"
    using d by (intro unat_unit) linarith
  have lo: "unat (of_nat (56320 + x mod 1024) :: 16 word) = 56320 + x mod 1024"
    using d by (intro unat_unit) linarith
  have h: "is_high (of_nat (55296 + x div 1024))"
    unfolding is_high_def hi using d by linarith
  have l: "is_low (of_nat (56320 + x mod 1024))"
    unfolding is_low_def lo using d by linarith
  have "65536 + (55296 + x div 1024 - 55296) * 1024 + (56320 + x mod 1024 - 56320) = cp"
    using x by simp
  then show ?thesis
    using False h l hi lo by (simp add: utf16_units_def x_def)
qed

lemma cont_low: "cont b \<Longrightarrow> unat b - 128 < 64 \<and> 128 + (unat b - 128) = unat b"
  unfolding cont_def by linarith

lemma bytes_of_two:
  assumes "194 \<le> unat b0" "unat b0 \<le> 223" "cont b1"
  defines "cp \<equiv> (unat b0 - 192) * 64 + (unat b1 - 128)"
  shows "cp < 1114112" "\<not> (55296 \<le> cp \<and> cp \<le> 57343)" "utf8_bytes cp = [b0, b1]"
proof -
  define h where "h = unat b0 - 192"
  define l where "l = unat b1 - 128"
  have h: "2 \<le> h" "h < 32" "192 + h = unat b0"
    using assms(1,2) unfolding h_def by linarith+
  have l: "l < 64" "128 + l = unat b1"
    using cont_low [OF assms(3)] unfolding l_def by simp_all
  have cp: "cp = h * 64 + l"
    unfolding cp_def h_def l_def by simp
  have r: "128 \<le> cp" "cp < 2048"
    unfolding cp using h l by linarith+
  then show "cp < 1114112" "\<not> (55296 \<le> cp \<and> cp \<le> 57343)"
    by linarith+
  have "cp div 64 = h" "cp mod 64 = l"
    unfolding cp using l by simp_all
  then show "utf8_bytes cp = [b0, b1]"
    using r h l by (simp add: utf8_bytes_def)
qed

lemma second_low:
  "second_ok n0 b \<Longrightarrow> unat b - 128 < 64 \<and> 128 + (unat b - 128) = unat b"
  unfolding second_ok_def by (auto split: if_splits)

lemma bytes_of_three:
  assumes "224 \<le> unat b0" "unat b0 \<le> 239" "second_ok (unat b0) b1" "cont b2"
  defines "cp \<equiv> ((unat b0 - 224) * 64 + (unat b1 - 128)) * 64 + (unat b2 - 128)"
  shows "cp < 1114112" "\<not> (55296 \<le> cp \<and> cp \<le> 57343)" "utf8_bytes cp = [b0, b1, b2]"
proof -
  define h where "h = unat b0 - 224"
  define m where "m = unat b1 - 128"
  define l where "l = unat b2 - 128"
  define q where "q = h * 64 + m"
  have h: "h < 16" "224 + h = unat b0"
    using assms(1,2) unfolding h_def by linarith+
  have m: "m < 64" "128 + m = unat b1"
    using second_low [OF assms(3)] unfolding m_def by simp_all
  have l: "l < 64" "128 + l = unat b2"
    using cont_low [OF assms(4)] unfolding l_def by simp_all
  have "h = 0 \<longrightarrow> 32 \<le> m" "h = 13 \<longrightarrow> m \<le> 31"
    using assms(3) h(2) unfolding second_ok_def m_def by (auto split: if_splits)
  then have hm: "h = 0 \<Longrightarrow> 32 \<le> m" "h = 13 \<Longrightarrow> m \<le> 31"
    by simp_all
  have "h = 0 \<or> 1 \<le> h"
    by linarith
  then have q1: "32 \<le> q"
    unfolding q_def using hm(1) by (elim disjE) linarith+
  have q2: "q < 1024"
    unfolding q_def using h(1) m(1) by linarith
  have "h < 13 \<or> h = 13 \<or> 14 \<le> h"
    by linarith
  then have q3: "q < 864 \<or> 896 \<le> q"
    unfolding q_def using hm(2) m(1) by (elim disjE) linarith+
  note q = q1 q2 q3
  have cp: "cp = q * 64 + l"
    unfolding cp_def q_def h_def m_def l_def by simp
  have r: "2048 \<le> cp" "cp < 65536"
    unfolding cp using q l by linarith+
  then show "cp < 1114112"
    by linarith
  show "\<not> (55296 \<le> cp \<and> cp \<le> 57343)"
    unfolding cp using q l by linarith
  have "cp div 64 = q" "cp mod 64 = l"
    unfolding cp using l by simp_all
  moreover have "q div 64 = h" "q mod 64 = m"
    unfolding q_def using m by simp_all
  ultimately show "utf8_bytes cp = [b0, b1, b2]"
    using r h m l by (simp add: utf8_bytes_def)
qed

lemma bytes_of_four:
  assumes "240 \<le> unat b0" "unat b0 \<le> 244" "second_ok (unat b0) b1" "cont b2" "cont b3"
  defines "cp \<equiv> (((unat b0 - 240) * 64 + (unat b1 - 128)) * 64 + (unat b2 - 128)) * 64
                 + (unat b3 - 128)"
  shows "cp < 1114112" "\<not> (55296 \<le> cp \<and> cp \<le> 57343)" "utf8_bytes cp = [b0, b1, b2, b3]"
proof -
  define h where "h = unat b0 - 240"
  define m where "m = unat b1 - 128"
  define l where "l = unat b2 - 128"
  define k where "k = unat b3 - 128"
  define p where "p = h * 64 + m"
  define q where "q = p * 64 + l"
  have h: "h < 5" "240 + h = unat b0"
    using assms(1,2) unfolding h_def by linarith+
  have m: "m < 64" "128 + m = unat b1"
    using second_low [OF assms(3)] unfolding m_def by simp_all
  have l: "l < 64" "128 + l = unat b2"
    using cont_low [OF assms(4)] unfolding l_def by simp_all
  have k: "k < 64" "128 + k = unat b3"
    using cont_low [OF assms(5)] unfolding k_def by simp_all
  have "h = 0 \<longrightarrow> 16 \<le> m" "h = 4 \<longrightarrow> m \<le> 15"
    using assms(3) h(2) unfolding second_ok_def m_def by (auto split: if_splits)
  then have hm: "h = 0 \<Longrightarrow> 16 \<le> m" "h = 4 \<Longrightarrow> m \<le> 15"
    by simp_all
  have "h = 0 \<or> 1 \<le> h"
    by linarith
  then have p1: "16 \<le> p"
    unfolding p_def using hm(1) by (elim disjE) linarith+
  have "h < 4 \<or> h = 4"
    using h(1) by linarith
  then have p2: "p < 272"
    unfolding p_def using hm(2) m(1) by (elim disjE) linarith+
  note p = p1 p2
  have cp: "cp = q * 64 + k"
    unfolding cp_def q_def p_def h_def m_def l_def k_def by simp
  have "cp = p * 4096 + l * 64 + k"
    unfolding cp q_def by simp
  then have r: "65536 \<le> cp" "cp < 1114112"
    using p l(1) k(1) by linarith+
  then show "cp < 1114112" "\<not> (55296 \<le> cp \<and> cp \<le> 57343)"
    by linarith+
  have "cp div 64 = q" "cp mod 64 = k"
    unfolding cp using k by simp_all
  moreover have "q div 64 = p" "q mod 64 = l"
    unfolding q_def using l by simp_all
  moreover have "p div 64 = h" "p mod 64 = m"
    unfolding p_def using m by simp_all
  ultimately show "utf8_bytes cp = [b0, b1, b2, b3]"
    using r h m l k by (simp add: utf8_bytes_def)
qed

lemma bytes_of_one:
  assumes "unat (b0 :: byte) < 128"
  shows "utf8_write (of_nat (unat b0) # rest) = b0 # utf8_write rest"
proof -
  have u: "unat (of_nat (unat b0) :: 16 word) = unat b0"
    using assms by (intro unat_unit) linarith
  have "\<not> is_high (of_nat (unat b0))" "\<not> is_low (of_nat (unat b0))"
    unfolding is_high_def is_low_def u using assms by linarith+
  then show ?thesis
    using assms u by (simp add: utf8_bytes_def)
qed

lemma utf8_write_decode: "valid_utf8 b \<Longrightarrow> utf8_write (utf8_decode b) = b"
proof (induction b rule: length_induct)
  case (1 b)
  show ?case
  proof (cases b)
    case Nil
    then show ?thesis by simp
  next
    case (Cons b0 bs)
    consider "unat b0 < 128" | "194 \<le> unat b0 \<and> unat b0 \<le> 223"
      | "224 \<le> unat b0 \<and> unat b0 \<le> 239" | "240 \<le> unat b0 \<and> unat b0 \<le> 244"
      | "128 \<le> unat b0 \<and> unat b0 < 194 \<or> 244 < unat b0"
      by linarith
    then show ?thesis
    proof cases
      case 1
      with "1.prems" Cons have "valid_utf8 bs"
        by (simp add: Let_def)
      with "1.IH" Cons have "utf8_write (utf8_decode bs) = bs"
        by simp
      then show ?thesis
        by (simp only: Cons decode_one [OF 1] bytes_of_one [OF 1])
    next
      case 2
      with "1.prems" Cons obtain b1 r where bs: "bs = b1 # r" and c: "cont b1" and v: "valid_utf8 r"
        by (cases bs) (simp_all add: Let_def)
      from 2 have r0: "194 \<le> unat b0" "unat b0 \<le> 223"
        by simp_all
      from "1.IH" Cons bs v have ih: "utf8_write (utf8_decode r) = r"
        by simp
      let ?cp = "(unat b0 - 192) * 64 + (unat b1 - 128)"
      note t = bytes_of_two [OF r0 c]
      have "utf8_write (utf8_decode b) = utf8_write (utf16_units ?cp @ utf8_decode r)"
        by (simp only: Cons bs decode_two [OF r0 c])
      also have "\<dots> = utf8_bytes ?cp @ utf8_write (utf8_decode r)"
        by (rule write_units [OF t(1,2)])
      also have "\<dots> = b"
        by (simp only: t(3) ih Cons bs append.simps)
      finally show ?thesis .
    next
      case 3
      with "1.prems" Cons obtain b1 b2 r where bs: "bs = b1 # b2 # r"
        and c: "second_ok (unat b0) b1" "cont b2" and v: "valid_utf8 r"
        by (auto simp add: Let_def split: list.splits)
      from 3 have r0: "224 \<le> unat b0" "unat b0 \<le> 239"
        by simp_all
      from "1.IH" Cons bs v have ih: "utf8_write (utf8_decode r) = r"
        by simp
      let ?cp = "((unat b0 - 224) * 64 + (unat b1 - 128)) * 64 + (unat b2 - 128)"
      note t = bytes_of_three [OF r0 c]
      have "utf8_write (utf8_decode b) = utf8_write (utf16_units ?cp @ utf8_decode r)"
        by (simp only: Cons bs decode_three [OF r0 c])
      also have "\<dots> = utf8_bytes ?cp @ utf8_write (utf8_decode r)"
        by (rule write_units [OF t(1,2)])
      also have "\<dots> = b"
        by (simp only: t(3) ih Cons bs append.simps)
      finally show ?thesis .
    next
      case 4
      with "1.prems" Cons obtain b1 b2 b3 r where bs: "bs = b1 # b2 # b3 # r"
        and c: "second_ok (unat b0) b1" "cont b2" "cont b3" and v: "valid_utf8 r"
        by (auto simp add: Let_def split: list.splits)
      from 4 have r0: "240 \<le> unat b0" "unat b0 \<le> 244"
        by simp_all
      from "1.IH" Cons bs v have ih: "utf8_write (utf8_decode r) = r"
        by simp
      let ?cp = "(((unat b0 - 240) * 64 + (unat b1 - 128)) * 64 + (unat b2 - 128)) * 64
                 + (unat b3 - 128)"
      note t = bytes_of_four [OF r0 c]
      have "utf8_write (utf8_decode b) = utf8_write (utf16_units ?cp @ utf8_decode r)"
        by (simp only: Cons bs decode_four [OF r0 c])
      also have "\<dots> = utf8_bytes ?cp @ utf8_write (utf8_decode r)"
        by (rule write_units [OF t(1,2)])
      also have "\<dots> = b"
        by (simp only: t(3) ih Cons bs append.simps)
      finally show ?thesis .
    next
      case 5
      with "1.prems" Cons show ?thesis
        by (auto simp add: Let_def)
    qed
  qed
qed

lemma utf8_identity_iff: "utf8_write (utf8_decode b) = b \<longleftrightarrow> valid_utf8 b"
  using utf8_write_decode [of b] valid_utf8_write [of "utf8_decode b"] by auto

section \<open>Properties of the client\<close>

subsection \<open>Objects and requests\<close>

lemma js_get_update:
  "js_get (AList.update k v ob) k' = (if k' = k then v else js_get ob k')"
  by (simp add: js_get_def update_conv')

lemma js_get_delete:
  "js_get (AList.delete k ob) k' = (if k' = k then JUndefined else js_get ob k')"
  by (simp add: js_get_def delete_conv')

text \<open>The outgoing policy as a finite map, step by step as \<open>store\<close> builds it.\<close>

lemma map_of_store_policy:
  "map_of (store_policy c pol) =
     (let m0 = map_of (case pol of None \<Rightarrow> [] | Some ob \<Rightarrow> ob);
          get = (\<lambda>m k. case m k of None \<Rightarrow> JUndefined | Some v \<Rightarrow> v);
          m1 = (if \<not> truthy (get m0 ''max_size'') then m0(''max_size'' \<mapsto> maxSize c) else m0);
          m2 = (if \<not> truthy (get m1 ''expires'') then m1(''expires'' \<mapsto> expires c) else m1)
      in if truthy (get m2 ''allowed_types'') \<and> js_length (get m2 ''allowed_types'') = JNum 0
         then m2(''allowed_types'' := None) else m2)"
  by (simp add: store_policy_def Let_def js_get_def update_conv' delete_conv')

lemma store_request_payload:
  assumes "store_request t c a = Inr req"
  shows "js_get (req_payload req) ''policy'' = JObj (store_policy c (policy a))"
    and "\<exists>f. store_file (file' a) = Inr f \<and> js_get (req_payload req) ''file'' = JStr f"
  using assms by (auto simp add: store_request_def js_get_def split: sum.splits)

subsection \<open>The values of the tests\<close>

lemma constructor_test_client:
  "constructor (Some (js ''testServiceSecret'')) (Some (js ''testServiceToken''))
     (Some (js ''testServiceSlug'')) (Some (js ''http://localhost:8080'')) None
   = Inr userFileStoreClient"
  by (simp add: constructor_def FBJWTClient_constructor_def userFileStoreClient_def js_or_def
      js_get_def defaultMaxSize_def defaultExpires_def)

lemma base64_hello: "base64_encode (utf8_write (js ''hello'')) = js ''aGVsbG8=''"
  by (simp add: js_def b64char_def utf8_bytes_def is_high_def is_low_def)

lemma well_formed_hello: "well_formed (js ''hello'')"
  by (simp add: js_def is_high_def is_low_def)

text \<open>\<open>fileBase64\<close> of the tests: \<open>'dGVzdEZpbGVDb250ZW50cw=='\<close>.\<close>

lemma base64_testFileContents:
  "base64_encode (utf8_write (js ''testFileContents'')) = js ''dGVzdEZpbGVDb250ZW50cw==''"
  by (simp add: js_def b64char_def utf8_bytes_def is_high_def is_low_def)

text \<open>The payload of the mocha test: \<open>file: 'bW9jayBmaWxlIGRhdGE='\<close>.\<close>

lemma base64_mock_file_data:
  "base64_encode (utf8_write (js ''mock file data'')) = js ''bW9jayBmaWxlIGRhdGE=''"
  by (simp add: js_def b64char_def utf8_bytes_def is_high_def is_low_def)

lemma store_request_test:
  "store_request (stub_transport got posted) userFileStoreClient
     (test_args (Some (FileString (js ''testFileContents''))) pol)
   = Inr \<lparr>req_url = endpoints_store,
          req_context = [(''serviceSlug'', JStr (js ''testServiceSlug'')),
                         (''userId'', JStr (js ''testUserId''))],
          req_payload = [(''encrypted_user_id_and_token'',
                          JObj [(''payload'', JStr (js ''mock payload''))]),
                         (''file'', JStr (js ''dGVzdEZpbGVDb250ZW50cw=='')),
                         (''policy'', JObj (store_policy userFileStoreClient pol))]\<rparr>"
  by (simp add: store_request_def store_file_def base64_testFileContents test_args_def
      stub_transport_def userFileStoreClient_def del: utf8_write.simps base64_encode.simps)

lemma utf8_lone_surrogate:
  "utf8_write [55296] = [239, 191, 189]" "utf8_decode [239, 191, 189] = [65533]"
  by (simp_all add: is_high_def replacement_def second_ok_def cont_def utf16_units_def)

subsection \<open>Construction\<close>

text \<open>
  Claim C7. When any of the four required arguments is missing, construction fails with
  exactly one client-configuration error: the one of the first missing argument in the
  order secret, token, slug, base URL, with the codes \<open>ENOSERVICESECRET\<close>,
  \<open>ENOSERVICETOKEN\<close>, \<open>ENOSERVICESLUG\<close>, \<open>ENOMICROSERVICEURL\<close> and, for the secret,
  the message "No service secret passed to client". The check is the base class's, which
  is modelled from the spec; the other three messages are those of the tests.
\<close>

theorem constructor_reports_first_missing:
  assumes "secret = None \<or> token = None \<or> slug = None \<or> url = None"
  shows "\<exists>code msg.
           constructor secret token slug url opts
             = Inl (FBUserFileStoreClientError (CodeStr code) msg) \<and>
           code = (if secret = None then ''ENOSERVICESECRET''
                   else if token = None then ''ENOSERVICETOKEN''
                   else if slug = None then ''ENOSERVICESLUG''
                   else ''ENOMICROSERVICEURL'') \<and>
           msg = (if secret = None then ''No service secret passed to client''
                  else if token = None then ''No service token passed to client''
                  else if slug = None then ''No service slug passed to client''
                  else ''No microservice url passed to client'')"
  using assms
  by (auto simp add: constructor_def FBJWTClient_constructor_def split: option.splits)

theorem constructor_reports_first_missing_witness:
  "constructor None None (Some (js ''testServiceSlug'')) None None
     = Inl (FBUserFileStoreClientError (CodeStr ''ENOSERVICESECRET'')
              ''No service secret passed to client'')
   \<and> constructor (Some (js ''testServiceSecret'')) None None None None
     = Inl (FBUserFileStoreClientError (CodeStr ''ENOSERVICETOKEN'')
              ''No service token passed to client'')"
  using constructor_reports_first_missing [of None None "Some (js ''testServiceSlug'')" None None]
    constructor_reports_first_missing [of "Some (js ''testServiceSecret'')" None None None None]
  by simp

text \<open>
  Claim C8, as amended. \<open>this.maxSize = options.maxSize || defaultMaxSize\<close>: when
  \<open>options\<close> carries no \<open>maxSize\<close>, or a falsy one, the instance's \<open>maxSize\<close> is
  \<open>10 * 1024 * 1024\<close>; when it carries a truthy \<open>maxSize\<close>, the instance's \<open>maxSize\<close> is
  that value.
\<close>

theorem constructor_maxSize:
  assumes "constructor secret token slug url opts = Inr c"
  shows "(map_of (case opts of None \<Rightarrow> [] | Some ob \<Rightarrow> ob) ''maxSize'' = None
            \<longrightarrow> maxSize c = JNum (10 * 1024 * 1024)) \<and>
         (\<forall>v. map_of (case opts of None \<Rightarrow> [] | Some ob \<Rightarrow> ob) ''maxSize'' = Some v
            \<longrightarrow> maxSize c = (if truthy v then v else JNum (10 * 1024 * 1024)))"
  using assms
  by (auto simp add: constructor_def FBJWTClient_constructor_def js_or_def js_get_def
      defaultMaxSize_def Let_def split: option.splits)

text \<open>The test "overriding default values": \<open>maxSize = 100 * 1024\<close>, \<open>expires = 7\<close>.\<close>

theorem constructor_maxSize_witness:
  "constructor (Some (js ''testServiceSecret'')) (Some (js ''testServiceToken''))
     (Some (js ''testServiceSlug'')) (Some (js ''http://localhost:8080''))
     (Some [(''maxSize'', JNum 102400), (''expires'', JNum 7)])
   = Inr (userFileStoreClient\<lparr>maxSize := JNum 102400, expires := JNum 7\<rparr>)
   \<and> maxSize (userFileStoreClient\<lparr>maxSize := JNum 102400, expires := JNum 7\<rparr>) = JNum 102400
   \<and> maxSize userFileStoreClient = JNum (10 * 1024 * 1024)"
proof -
  have built: "constructor (Some (js ''testServiceSecret'')) (Some (js ''testServiceToken''))
     (Some (js ''testServiceSlug'')) (Some (js ''http://localhost:8080''))
     (Some [(''maxSize'', JNum 102400), (''expires'', JNum 7)])
   = Inr (userFileStoreClient\<lparr>maxSize := JNum 102400, expires := JNum 7\<rparr>)"
    by (simp add: constructor_def FBJWTClient_constructor_def userFileStoreClient_def
        js_or_def js_get_def)
  show ?thesis
    using built constructor_maxSize [OF built] constructor_maxSize [OF constructor_test_client]
    by simp
qed

text \<open>
  The claim as stated fails for \<open>options = {maxSize: 0}\<close>: the value supplied is \<open>0\<close>, the
  instance's \<open>maxSize\<close> is the default.
\<close>

theorem constructor_maxSize_zero_counterexample:
  "constructor (Some (js ''testServiceSecret'')) (Some (js ''testServiceToken''))
     (Some (js ''testServiceSlug'')) (Some (js ''http://localhost:8080''))
     (Some [(''maxSize'', JNum 0)])
   = Inr userFileStoreClient
   \<and> maxSize userFileStoreClient \<noteq> js_get [(''maxSize'', JNum 0)] ''maxSize''"
  by (simp add: constructor_def FBJWTClient_constructor_def userFileStoreClient_def
      js_or_def js_get_def defaultMaxSize_def defaultExpires_def)

subsection \<open>store: the result\<close>

text \<open>
  Claim C1. For every result that \<open>sendPost\<close> resolves with during \<open>store\<close>: if it lacks a
  truthy \<open>fingerprint\<close>, \<open>store\<close> rejects with the application error of code \<open>500\<close> and
  message \<open>ENOFINGERPRINT\<close>; if it has one, \<open>store\<close> resolves with that result unchanged.
\<close>

theorem store_checks_fingerprint:
  assumes "store_request t c a = Inr req" and "sendPost t req logger = Resolved result"
  shows "(\<not> truthy (js_get result ''fingerprint'') \<longrightarrow>
            store t c a logger
              = Inr (Rejected (FBUserFileStoreClientError (CodeNum 500) ''ENOFINGERPRINT''))) \<and>
         (truthy (js_get result ''fingerprint'') \<longrightarrow>
            store t c a logger = Inr (Resolved result))"
  using assms
  by (simp add: store_def promise_then_def store_then_def throwRequestError_def)

text \<open>The stub returning \<open>{}\<close> and the stub returning \<open>{fingerprint: 'fp1'}\<close>.\<close>

theorem store_checks_fingerprint_witness:
  "store (stub_transport (Resolved []) (Resolved [])) userFileStoreClient
     (test_args (Some (FileString (js ''testFileContents''))) (Some [])) JNull
   = Inr (Rejected (FBUserFileStoreClientError (CodeNum 500) ''ENOFINGERPRINT''))
   \<and> store (stub_transport (Resolved []) (Resolved [(''fingerprint'', JStr (js ''fp1''))]))
       userFileStoreClient
       (test_args (Some (FileString (js ''testFileContents''))) (Some [])) JNull
   = Inr (Resolved [(''fingerprint'', JStr (js ''fp1''))])"
proof -
  let ?t = "stub_transport (Resolved []) (Resolved [])"
  let ?u = "stub_transport (Resolved []) (Resolved [(''fingerprint'', JStr (js ''fp1''))])"
  have p: "sendPost ?t req JNull = Resolved []"
    "sendPost ?u req JNull = Resolved [(''fingerprint'', JStr (js ''fp1''))]" for req
    by (simp_all add: stub_transport_def)
  have e: "\<not> truthy (js_get [] ''fingerprint'')"
    "truthy (js_get [(''fingerprint'', JStr (js ''fp1''))] ''fingerprint'')"
    by (simp_all add: js_get_def js_def)
  note r = store_request_test [of "Resolved []" "Resolved []" "Some []"]
  note r' = store_request_test
    [of "Resolved []" "Resolved [(''fingerprint'', JStr (js ''fp1''))]" "Some []"]
  show ?thesis
    using store_checks_fingerprint [OF r p(1)] store_checks_fingerprint [OF r' p(2)] e
    by simp
qed

subsection \<open>store: what is sent\<close>

text \<open>When \<open>store\<close> returns a promise, it is the promise of \<open>sendPost\<close> on the request built.\<close>

lemma store_sends_request:
  assumes "store t c a logger = Inr p"
  shows "\<exists>req. store_request t c a = Inr req
           \<and> p = promise_then (sendPost t req logger) store_then"
  using assms by (auto simp add: store_def split: sum.splits)

lemma store_echo_test:
  "store echo_transport userFileStoreClient (test_args (Some f) pol) JNull
   = (case store_file (Some f) of
        Inl e \<Rightarrow> Inl e
      | Inr b64 \<Rightarrow>
          Inr (Resolved [(''fingerprint'', JStr (js ''fp1'')),
                         (''encrypted_user_id_and_token'',
                          JObj [(''payload'', JStr (js ''mock payload''))]),
                         (''file'', JStr b64),
                         (''policy'', JObj (store_policy userFileStoreClient pol))]))"
  by (simp add: store_def store_request_def echo_transport_def test_args_def promise_then_def
      store_then_def js_get_def js_def split: sum.splits)

lemma store_file_test:
  "store_file (Some (FileString (js ''testFileContents''))) = Inr (js ''dGVzdEZpbGVDb250ZW50cw=='')"
  "store_file (Some (FileBuffer [104, 101, 108, 108, 111])) = Inr (js ''aGVsbG8='')"
  by (simp_all add: store_file_def base64_testFileContents del: utf8_write.simps
      base64_encode.simps) (simp add: js_def b64char_def)

lemma store_policy_test:
  "store_policy userFileStoreClient None = [(''max_size'', JNum 10485760), (''expires'', JNum 28)]"
  "store_policy userFileStoreClient (Some []) =
     [(''max_size'', JNum 10485760), (''expires'', JNum 28)]"
  "store_policy userFileStoreClient (Some [(''max_size'', JNum 0)]) =
     [(''max_size'', JNum 10485760), (''expires'', JNum 28)]"
  "store_policy userFileStoreClient (Some [(''max_size'', JNum 102400)]) =
     [(''max_size'', JNum 102400), (''expires'', JNum 28)]"
  "store_policy userFileStoreClient (Some [(''allowed_types'', JArr [])]) =
     [(''max_size'', JNum 10485760), (''expires'', JNum 28)]"
  "store_policy userFileStoreClient (Some [(''allowed_types'', JArr [JStr (js ''image/*'')])]) =
     [(''allowed_types'', JArr [JStr (js ''image/*'')]), (''max_size'', JNum 10485760),
      (''expires'', JNum 28)]"
  by (simp_all add: store_policy_def js_get_def userFileStoreClient_def)

subsection \<open>store: the file\<close>

text \<open>
  Claim C5. Round trip: for every byte content \<open>b\<close> passed as the file of \<open>store\<close>,
  \<open>store\<close> returns the promise of \<open>sendPost\<close> on a request, and base64-decoding the
  \<open>file\<close> field of the payload of that request yields exactly \<open>b\<close>.
\<close>

theorem store_file_roundtrip:
  assumes "file' a = Some (FileBuffer b)"
  shows "\<exists>req f. store t c a logger = Inr (promise_then (sendPost t req logger) store_then)
           \<and> js_get (req_payload req) ''file'' = JStr f
           \<and> base64_decode f = b"
proof -
  from assms obtain req where r: "store_request t c a = Inr req"
    and f: "js_get (req_payload req) ''file'' = JStr (base64_encode b)"
    by (simp add: store_request_def store_file_def js_get_def)
  from r have "store t c a logger = Inr (promise_then (sendPost t req logger) store_then)"
    by (simp add: store_def)
  with f show ?thesis
    using base64_roundtrip [of b] by blast
qed

text \<open>The echo shows the payload: the file sent for the bytes of \<open>hello\<close> is \<open>aGVsbG8=\<close>.\<close>

theorem store_file_roundtrip_witness:
  "store echo_transport userFileStoreClient
     (test_args (Some (FileBuffer [104, 101, 108, 108, 111])) None) JNull
   = Inr (Resolved [(''fingerprint'', JStr (js ''fp1'')),
                    (''encrypted_user_id_and_token'',
                     JObj [(''payload'', JStr (js ''mock payload''))]),
                    (''file'', JStr (js ''aGVsbG8='')),
                    (''policy'', JObj [(''max_size'', JNum 10485760), (''expires'', JNum 28)])])
   \<and> base64_decode (js ''aGVsbG8='') = [104, 101, 108, 108, 111]"
proof -
  let ?a = "test_args (Some (FileBuffer [104, 101, 108, 108, 111])) None"
  have fa: "file' ?a = Some (FileBuffer [104, 101, 108, 108, 111])"
    by (simp add: test_args_def)
  have e: "store echo_transport userFileStoreClient ?a JNull
      = Inr (Resolved [(''fingerprint'', JStr (js ''fp1'')),
                    (''encrypted_user_id_and_token'',
                     JObj [(''payload'', JStr (js ''mock payload''))]),
                    (''file'', JStr (js ''aGVsbG8='')),
                    (''policy'', JObj [(''max_size'', JNum 10485760), (''expires'', JNum 28)])])"
    by (simp only: store_echo_test store_file_test store_policy_test sum.case)
  obtain req f
    where s: "store echo_transport userFileStoreClient ?a JNull
                = Inr (promise_then (sendPost echo_transport req JNull) store_then)"
      and g: "js_get (req_payload req) ''file'' = JStr f"
      and d: "base64_decode f = [104, 101, 108, 108, 111]"
    using store_file_roundtrip [OF fa] by blast
  from s e have "req_payload req
      = [(''encrypted_user_id_and_token'', JObj [(''payload'', JStr (js ''mock payload''))]),
         (''file'', JStr (js ''aGVsbG8='')),
         (''policy'', JObj [(''max_size'', JNum 10485760), (''expires'', JNum 28)])]"
    by (simp add: echo_transport_def promise_then_def store_then_def js_get_def js_def
        split: if_splits)
  with g have "f = js ''aGVsbG8=''"
    by (simp add: js_get_def)
  with e d show ?thesis
    by simp
qed

subsection \<open>store: the policy\<close>

text \<open>
  Claim C3, as amended. For every \<open>store\<close> call that returns a promise, it is the
  promise of \<open>sendPost\<close> on a request whose payload holds the outgoing policy. Its
  \<open>max_size\<close> equals the instance's \<open>maxSize\<close> when the supplied policy omits \<open>max_size\<close>,
  and its \<open>expires\<close> equals the instance's \<open>expires\<close> when the supplied policy omits
  \<open>expires\<close>. A field present in the supplied policy is sent as supplied, unless it is a
  \<open>max_size\<close> or an \<open>expires\<close> with a falsy value, which is replaced by the instance
  default, or a truthy \<open>allowed_types\<close> of length 0, which is dropped.
\<close>

theorem store_policy_defaults:
  assumes "store t c a logger = Inr p"
  shows "\<exists>req out.
           p = promise_then (sendPost t req logger) store_then \<and>
           js_get (req_payload req) ''policy'' = JObj out \<and>
           (map_of (case policy a of None \<Rightarrow> [] | Some ob \<Rightarrow> ob) ''max_size'' = None
              \<longrightarrow> map_of out ''max_size'' = Some (maxSize c)) \<and>
           (map_of (case policy a of None \<Rightarrow> [] | Some ob \<Rightarrow> ob) ''expires'' = None
              \<longrightarrow> map_of out ''expires'' = Some (expires c)) \<and>
           (\<forall>k v. map_of (case policy a of None \<Rightarrow> [] | Some ob \<Rightarrow> ob) k = Some v
              \<longrightarrow> map_of out k =
                    (if k = ''max_size'' \<and> \<not> truthy v then Some (maxSize c)
                     else if k = ''expires'' \<and> \<not> truthy v then Some (expires c)
                     else if k = ''allowed_types'' \<and> truthy v \<and> js_length v = JNum 0
                          then None
                     else Some v))"
proof -
  from store_sends_request [OF assms] obtain req
    where r: "store_request t c a = Inr req"
      and p: "p = promise_then (sendPost t req logger) store_then"
    by blast
  let ?out = "store_policy c (policy a)"
  let ?sup = "map_of (case policy a of None \<Rightarrow> [] | Some ob \<Rightarrow> ob)"
  have o: "js_get (req_payload req) ''policy'' = JObj ?out"
    by (rule store_request_payload(1) [OF r])
  have m: "?sup ''max_size'' = None \<longrightarrow> map_of ?out ''max_size'' = Some (maxSize c)"
    by (auto simp add: map_of_store_policy Let_def split: option.splits)
  have e: "?sup ''expires'' = None \<longrightarrow> map_of ?out ''expires'' = Some (expires c)"
    by (auto simp add: map_of_store_policy Let_def split: option.splits)
  have k: "\<forall>k v. ?sup k = Some v
              \<longrightarrow> map_of ?out k =
                    (if k = ''max_size'' \<and> \<not> truthy v then Some (maxSize c)
                     else if k = ''expires'' \<and> \<not> truthy v then Some (expires c)
                     else if k = ''allowed_types'' \<and> truthy v \<and> js_length v = JNum 0
                          then None
                     else Some v)"
    by (auto simp add: map_of_store_policy Let_def split: option.splits)
  show ?thesis
    by (rule exI [of _ req], rule exI [of _ "store_policy c (policy a)"])
      (intro conjI p o m e k)
qed

text \<open>
  The policy \<open>{max_size: 102400}\<close>: \<open>max_size\<close> is sent as supplied and \<open>expires\<close> is
  the default, as the echo of the payload shows.
\<close>

theorem store_policy_defaults_witness:
  "store echo_transport userFileStoreClient
     (test_args (Some (FileString (js ''testFileContents'')))
        (Some [(''max_size'', JNum 102400)])) JNull
   = Inr (Resolved [(''fingerprint'', JStr (js ''fp1'')),
                    (''encrypted_user_id_and_token'',
                     JObj [(''payload'', JStr (js ''mock payload''))]),
                    (''file'', JStr (js ''dGVzdEZpbGVDb250ZW50cw=='')),
                    (''policy'', JObj [(''max_size'', JNum 102400), (''expires'', JNum 28)])])"
proof -
  let ?a = "test_args (Some (FileString (js ''testFileContents'')))
              (Some [(''max_size'', JNum 102400)])"
  have e: "store echo_transport userFileStoreClient ?a JNull
   = Inr (Resolved [(''fingerprint'', JStr (js ''fp1'')),
                    (''encrypted_user_id_and_token'',
                     JObj [(''payload'', JStr (js ''mock payload''))]),
                    (''file'', JStr (js ''dGVzdEZpbGVDb250ZW50cw=='')),
                    (''policy'', JObj [(''max_size'', JNum 102400), (''expires'', JNum 28)])])"
    by (simp only: store_echo_test store_file_test store_policy_test sum.case)
  show ?thesis
    using e store_policy_defaults [OF e] by simp
qed

text \<open>
  The claim as stated fails for the policy \<open>{max_size: 0}\<close>: the field is present, and
  what is sent is the default.
\<close>

theorem store_policy_falsy_counterexample:
  "store echo_transport userFileStoreClient
     (test_args (Some (FileString (js ''testFileContents''))) (Some [(''max_size'', JNum 0)]))
     JNull
   = Inr (Resolved [(''fingerprint'', JStr (js ''fp1'')),
                    (''encrypted_user_id_and_token'',
                     JObj [(''payload'', JStr (js ''mock payload''))]),
                    (''file'', JStr (js ''dGVzdEZpbGVDb250ZW50cw=='')),
                    (''policy'', JObj [(''max_size'', JNum 10485760), (''expires'', JNum 28)])])
   \<and> map_of [(''max_size'', JNum 10485760), (''expires'', JNum 28)] ''max_size''
       \<noteq> map_of [(''max_size'', JNum 0)] ''max_size''"
  by (simp only: store_echo_test store_file_test store_policy_test sum.case) simp

text \<open>
  Claim C4. For every \<open>store\<close> call that returns a promise, it is the promise of
  \<open>sendPost\<close> on a request whose payload holds the outgoing policy: when the supplied
  policy has \<open>allowed_types\<close> equal to the empty sequence, the outgoing policy has no
  \<open>allowed_types\<close> key at all; a non-empty \<open>allowed_types\<close> sequence is sent unchanged.
\<close>

theorem store_allowed_types:
  assumes "store t c a logger = Inr p" and "policy a = Some supplied"
  shows "\<exists>req out.
           p = promise_then (sendPost t req logger) store_then \<and>
           js_get (req_payload req) ''policy'' = JObj out \<and>
           (map_of supplied ''allowed_types'' = Some (JArr [])
              \<longrightarrow> ''allowed_types'' \<notin> fst ` set out) \<and>
           (\<forall>x xs. map_of supplied ''allowed_types'' = Some (JArr (x # xs))
              \<longrightarrow> map_of out ''allowed_types'' = Some (JArr (x # xs)))"
proof -
  from store_sends_request [OF assms(1)] obtain req
    where r: "store_request t c a = Inr req"
      and p: "p = promise_then (sendPost t req logger) store_then"
    by blast
  have o: "js_get (req_payload req) ''policy'' = JObj (store_policy c (Some supplied))"
    using store_request_payload(1) [OF r] assms(2) by simp
  have absent: "''allowed_types'' \<notin> fst ` set (store_policy c (Some supplied))"
    if "map_of supplied ''allowed_types'' = Some (JArr [])"
    using that
    by (simp add: store_policy_def Let_def js_get_update delete_notin_dom) (simp add: js_get_def)
  have kept: "map_of (store_policy c (Some supplied)) ''allowed_types'' = Some (JArr (x # xs))"
    if "map_of supplied ''allowed_types'' = Some (JArr (x # xs))" for x xs
    using that by (simp add: map_of_store_policy Let_def)
  from p o absent kept show ?thesis
    by blast
qed

text \<open>The tests' policies \<open>{allowed_types: []}\<close> and \<open>{allowed_types: ['image/*']}\<close>.\<close>

theorem store_allowed_types_witness:
  "store echo_transport userFileStoreClient
     (test_args (Some (FileString (js ''testFileContents'')))
        (Some [(''allowed_types'', JArr [])])) JNull
   = Inr (Resolved [(''fingerprint'', JStr (js ''fp1'')),
                    (''encrypted_user_id_and_token'',
                     JObj [(''payload'', JStr (js ''mock payload''))]),
                    (''file'', JStr (js ''dGVzdEZpbGVDb250ZW50cw=='')),
                    (''policy'', JObj [(''max_size'', JNum 10485760), (''expires'', JNum 28)])])
   \<and> store echo_transport userFileStoreClient
     (test_args (Some (FileString (js ''testFileContents'')))
        (Some [(''allowed_types'', JArr [JStr (js ''image/*'')])])) JNull
   = Inr (Resolved [(''fingerprint'', JStr (js ''fp1'')),
                    (''encrypted_user_id_and_token'',
                     JObj [(''payload'', JStr (js ''mock payload''))]),
                    (''file'', JStr (js ''dGVzdEZpbGVDb250ZW50cw=='')),
                    (''policy'', JObj [(''allowed_types'', JArr [JStr (js ''image/*'')]),
                                       (''max_size'', JNum 10485760),
                                       (''expires'', JNum 28)])])"
proof -
  let ?f = "Some (FileString (js ''testFileContents''))"
  have pol: "policy (test_args ?f (Some s)) = Some s" for s
    by (simp add: test_args_def)
  have e: "store echo_transport userFileStoreClient
     (test_args ?f (Some [(''allowed_types'', JArr [])])) JNull
   = Inr (Resolved [(''fingerprint'', JStr (js ''fp1'')),
                    (''encrypted_user_id_and_token'',
                     JObj [(''payload'', JStr (js ''mock payload''))]),
                    (''file'', JStr (js ''dGVzdEZpbGVDb250ZW50cw=='')),
                    (''policy'', JObj [(''max_size'', JNum 10485760), (''expires'', JNum 28)])])"
    by (simp only: store_echo_test store_file_test store_policy_test sum.case)
  have e': "store echo_transport userFileStoreClient
     (test_args ?f (Some [(''allowed_types'', JArr [JStr (js ''image/*'')])])) JNull
   = Inr (Resolved [(''fingerprint'', JStr (js ''fp1'')),
                    (''encrypted_user_id_and_token'',
                     JObj [(''payload'', JStr (js ''mock payload''))]),
                    (''file'', JStr (js ''dGVzdEZpbGVDb250ZW50cw=='')),
                    (''policy'', JObj [(''allowed_types'', JArr [JStr (js ''image/*'')]),
                                       (''max_size'', JNum 10485760),
                                       (''expires'', JNum 28)])])"
    by (simp only: store_echo_test store_file_test store_policy_test sum.case)
  show ?thesis
    using e e' store_allowed_types [OF e pol] store_allowed_types [OF e' pol] by simp
qed

text \<open>
  A \<open>max_size\<close> or \<open>expires\<close> that is present with a falsy value is overwritten, so the
  outgoing policy is, as a mapping, the one of the policy without that key.
\<close>

lemma store_policy_falsy_max_size:
  assumes "map_of supplied ''max_size'' = Some v" and "\<not> truthy v"
  shows "map_of (store_policy c (Some supplied))
           = map_of (store_policy c (Some (AList.delete ''max_size'' supplied)))"
    and "map_of (store_policy c (Some supplied)) ''max_size'' = Some (maxSize c)"
  using assms by (simp_all add: map_of_store_policy Let_def delete_conv' fun_eq_iff)

lemma store_policy_falsy_expires:
  assumes "map_of supplied ''expires'' = Some v" and "\<not> truthy v"
  shows "map_of (store_policy c (Some supplied))
           = map_of (store_policy c (Some (AList.delete ''expires'' supplied)))"
    and "map_of (store_policy c (Some supplied)) ''expires'' = Some (expires c)"
  using assms by (simp_all add: map_of_store_policy Let_def delete_conv' fun_eq_iff)

text \<open>
  Claim C9. When the supplied policy contains \<open>max_size\<close> or \<open>expires\<close> with a falsy
  value, the policy in the request that \<open>store\<close> passes to \<open>sendPost\<close> has the instance
  default in its place, and it is the same mapping as the policy in the request that
  \<open>store\<close> passes to \<open>sendPost\<close> for the policy without that field. (The two outgoing
  objects can list their keys in a different order; they agree on every key.)
\<close>

theorem store_policy_falsy_as_absent:
  assumes "k = ''max_size'' \<or> k = ''expires''"
    and "map_of supplied k = Some v" and "\<not> truthy v"
    and "store t c (a\<lparr>policy := Some supplied\<rparr>) logger = Inr p"
    and "store t c (a\<lparr>policy := Some (AList.delete k supplied)\<rparr>) logger = Inr p'"
  shows "\<exists>req req' out out'.
           p = promise_then (sendPost t req logger) store_then \<and>
           p' = promise_then (sendPost t req' logger) store_then \<and>
           js_get (req_payload req) ''policy'' = JObj out \<and>
           js_get (req_payload req') ''policy'' = JObj out' \<and>
           map_of out = map_of out' \<and>
           map_of out k = Some (if k = ''max_size'' then maxSize c else expires c)"
proof -
  from store_sends_request [OF assms(4)] obtain req
    where r: "store_request t c (a\<lparr>policy := Some supplied\<rparr>) = Inr req"
      and p: "p = promise_then (sendPost t req logger) store_then"
    by blast
  from store_sends_request [OF assms(5)] obtain req'
    where r': "store_request t c (a\<lparr>policy := Some (AList.delete k supplied)\<rparr>) = Inr req'"
      and p': "p' = promise_then (sendPost t req' logger) store_then"
    by blast
  have o: "js_get (req_payload req) ''policy'' = JObj (store_policy c (Some supplied))"
    using store_request_payload(1) [OF r] by simp
  have o': "js_get (req_payload req') ''policy''
              = JObj (store_policy c (Some (AList.delete k supplied)))"
    using store_request_payload(1) [OF r'] by simp
  from assms(1) have "map_of (store_policy c (Some supplied))
        = map_of (store_policy c (Some (AList.delete k supplied)))
      \<and> map_of (store_policy c (Some supplied)) k
        = Some (if k = ''max_size'' then maxSize c else expires c)"
  proof
    assume k: "k = ''max_size''"
    show ?thesis
      using store_policy_falsy_max_size [OF assms(2,3) [unfolded k], of c]
      unfolding k by simp
  next
    assume k: "k = ''expires''"
    show ?thesis
      using store_policy_falsy_expires [OF assms(2,3) [unfolded k], of c]
      unfolding k by simp
  qed
  with p p' o o' show ?thesis
    by blast
qed

text \<open>The policies \<open>{max_size: 0}\<close> and \<open>{}\<close>: the echo of the payload is the same.\<close>

theorem store_policy_falsy_as_absent_witness:
  "store echo_transport userFileStoreClient
     (test_args (Some (FileString (js ''testFileContents''))) (Some [(''max_size'', JNum 0)]))
     JNull
   = Inr (Resolved [(''fingerprint'', JStr (js ''fp1'')),
                    (''encrypted_user_id_and_token'',
                     JObj [(''payload'', JStr (js ''mock payload''))]),
                    (''file'', JStr (js ''dGVzdEZpbGVDb250ZW50cw=='')),
                    (''policy'', JObj [(''max_size'', JNum 10485760), (''expires'', JNum 28)])])
   \<and> store echo_transport userFileStoreClient
     (test_args (Some (FileString (js ''testFileContents''))) (Some [])) JNull
   = store echo_transport userFileStoreClient
     (test_args (Some (FileString (js ''testFileContents''))) (Some [(''max_size'', JNum 0)]))
     JNull"
proof -
  let ?f = "Some (FileString (js ''testFileContents''))"
  let ?p = "[(''max_size'', JNum 0)]"
  let ?r = "Resolved [(''fingerprint'', JStr (js ''fp1'')),
                    (''encrypted_user_id_and_token'',
                     JObj [(''payload'', JStr (js ''mock payload''))]),
                    (''file'', JStr (js ''dGVzdEZpbGVDb250ZW50cw=='')),
                    (''policy'', JObj [(''max_size'', JNum 10485760), (''expires'', JNum 28)])]"
  have a: "(test_args ?f None)\<lparr>policy := Some s\<rparr> = test_args ?f (Some s)" for s
    by (simp add: test_args_def)
  have k: "''max_size'' = ''max_size'' \<or> ''max_size'' = ''expires''"
    by simp
  have v: "map_of ?p ''max_size'' = Some (JNum 0)" "\<not> truthy (JNum 0)"
    by simp_all
  have d: "AList.delete ''max_size'' ?p = []"
    by (simp add: AList.delete_eq)
  have e: "store echo_transport userFileStoreClient (test_args ?f (Some ?p)) JNull = Inr ?r"
    by (simp only: store_echo_test store_file_test store_policy_test sum.case)
  have e': "store echo_transport userFileStoreClient (test_args ?f (Some [])) JNull = Inr ?r"
    by (simp only: store_echo_test store_file_test store_policy_test sum.case)
  have s: "store echo_transport userFileStoreClient
             ((test_args ?f None)\<lparr>policy := Some ?p\<rparr>) JNull = Inr ?r"
    unfolding a by (rule e)
  have s': "store echo_transport userFileStoreClient
              ((test_args ?f None)\<lparr>policy := Some (AList.delete ''max_size'' ?p)\<rparr>) JNull
            = Inr ?r"
    unfolding a d by (rule e')
  show ?thesis
    using e e' store_policy_falsy_as_absent [OF k v s s'] by simp
qed

subsection \<open>fetch\<close>

text \<open>
  Claim C6, as amended. When the transport resolves with a mapping whose \<open>file\<close> is the
  base64 encoding of a string \<open>s\<close> without unpaired surrogates, \<open>fetch\<close> resolves to
  \<open>s\<close>; given \<open>{file: base64("hello")}\<close>, it resolves to \<open>"hello"\<close>.
\<close>

theorem fetch_decodes_file:
  assumes "sendGet t (fetch_request t c a) logger = Resolved json"
    and "js_get json ''file'' = JStr (base64_encode (utf8_write s))"
    and "well_formed s"
  shows "fetch t c a logger = Resolved s"
  using assms
  by (simp add: fetch_def promise_then_def fetch_then_def base64_roundtrip utf8_decode_write)

theorem fetch_decodes_file_witness:
  "fetch (stub_transport (Resolved [(''file'', JStr (js ''aGVsbG8=''))]) (Resolved []))
     userFileStoreClient (test_args None None) JNull = Resolved (js ''hello'')"
proof -
  let ?t = "stub_transport (Resolved [(''file'', JStr (js ''aGVsbG8=''))]) (Resolved [])"
  have got: "sendGet ?t (fetch_request ?t userFileStoreClient (test_args None None)) JNull
               = Resolved [(''file'', JStr (js ''aGVsbG8=''))]"
    by (simp add: stub_transport_def)
  have fl: "js_get [(''file'', JStr (js ''aGVsbG8=''))] ''file''
                = JStr (base64_encode (utf8_write (js ''hello'')))"
    by (simp add: js_get_def base64_hello)
  show ?thesis
    by (rule fetch_decodes_file [OF got fl well_formed_hello])
qed

text \<open>
  The claim as stated fails for the string made of the single code unit \<open>0xD800\<close>:
  its bytes are those of U+FFFD, and \<open>fetch\<close> resolves to U+FFFD.
\<close>

theorem fetch_lone_surrogate_counterexample:
  "fetch (stub_transport (Resolved [(''file'', JStr (base64_encode (utf8_write [55296])))])
            (Resolved []))
     userFileStoreClient (test_args None None) JNull = Resolved [65533]
   \<and> [65533] \<noteq> [55296 :: 16 word]"
proof -
  have "fetch_then [(''file'', JStr (base64_encode (utf8_write [55296])))]
          = Resolved (utf8_decode (utf8_write [55296]))"
    by (simp add: fetch_then_def js_get_def base64_roundtrip del: utf8_write.simps)
  then show ?thesis
    by (simp add: fetch_def promise_then_def stub_transport_def utf8_lone_surrogate
        del: utf8_write.simps utf8_decode.simps)
qed

text \<open>
  Claim C10. \<open>fetch\<close> turns the decoded bytes into a string by UTF-8: when it is given
  back the \<open>file\<close> that \<open>store\<close> sent for the bytes \<open>b\<close>, it resolves to the UTF-8
  decoding of \<open>b\<close>, and writing that string as bytes restores \<open>b\<close> only when \<open>b\<close> is
  valid UTF-8; there is a byte sequence that is not valid UTF-8 and is not restored.
\<close>

theorem fetch_after_store_utf8:
  "(\<forall>t c a req t' c' a' logger json b.
      file' a = Some (FileBuffer b) \<longrightarrow>
      store_request t c a = Inr req \<longrightarrow>
      sendGet t' (fetch_request t' c' a') logger = Resolved json \<longrightarrow>
      js_get json ''file'' = js_get (req_payload req) ''file'' \<longrightarrow>
        fetch t' c' a' logger = Resolved (utf8_decode b) \<and>
        (utf8_write (utf8_decode b) = b \<longleftrightarrow> valid_utf8 b))
   \<and> (\<exists>b. \<not> valid_utf8 b \<and> utf8_write (utf8_decode b) \<noteq> b)"
proof (intro conjI allI impI)
  fix t c a req t' c' a' logger json b
  assume f: "file' a = Some (FileBuffer b)" and r: "store_request t c a = Inr req"
    and g: "sendGet t' (fetch_request t' c' a') logger = Resolved json"
    and j: "js_get json ''file'' = js_get (req_payload req) ''file''"
  from r f have "js_get (req_payload req) ''file'' = JStr (base64_encode b)"
    by (auto simp add: store_request_def store_file_def js_get_def)
  with g j show "fetch t' c' a' logger = Resolved (utf8_decode b)"
    by (simp add: fetch_def promise_then_def fetch_then_def base64_roundtrip)
  show "utf8_write (utf8_decode b) = b \<longleftrightarrow> valid_utf8 b"
    by (rule utf8_identity_iff)
next
  have "\<not> valid_utf8 [255]"
    by simp
  moreover from this have "utf8_write (utf8_decode [255]) \<noteq> [255]"
    by (simp only: utf8_identity_iff not_False_eq_True)
  ultimately show "\<exists>b. \<not> valid_utf8 b \<and> utf8_write (utf8_decode b) \<noteq> b"
    by blast
qed

theorem fetch_after_store_utf8_witness:
  "fetch (stub_transport (Resolved [(''file'', JStr (base64_encode [255]))]) (Resolved []))
     userFileStoreClient (test_args None None) JNull = Resolved [65533]
   \<and> utf8_write [65533] \<noteq> [255]"
proof -
  let ?t = "stub_transport (Resolved [(''file'', JStr (base64_encode [255]))]) (Resolved [])"
  let ?a = "test_args (Some (FileBuffer [255])) None"
  let ?req = "\<lparr>req_url = endpoints_store,
          req_context = [(''serviceSlug'', JStr (js ''testServiceSlug'')),
                         (''userId'', JStr (js ''testUserId''))],
          req_payload = [(''encrypted_user_id_and_token'',
                          JObj [(''payload'', JStr (js ''mock payload''))]),
                         (''file'', JStr (base64_encode [255])),
                         (''policy'', JObj (store_policy userFileStoreClient None))]\<rparr>"
  have f: "file' ?a = Some (FileBuffer [255])"
    by (simp add: test_args_def)
  have r: "store_request ?t userFileStoreClient ?a = Inr ?req"
    by (simp add: store_request_def store_file_def test_args_def stub_transport_def
        userFileStoreClient_def del: base64_encode.simps)
  have g: "sendGet ?t (fetch_request ?t userFileStoreClient (test_args None None)) JNull
             = Resolved [(''file'', JStr (base64_encode [255]))]"
    by (simp add: stub_transport_def)
  have j: "js_get [(''file'', JStr (base64_encode [255]))] ''file''
             = js_get (req_payload ?req) ''file''"
    by (simp add: js_get_def)
  have "fetch ?t userFileStoreClient (test_args None None) JNull = Resolved (utf8_decode [255])
        \<and> (utf8_write (utf8_decode [255]) = [255] \<longleftrightarrow> valid_utf8 [255])"
    using fetch_after_store_utf8 f r g j by blast
  then show ?thesis
    by simp
qed

subsection \<open>storeFromPath\<close>

lemma storeFromPath_returned:
  "returned (storeFromPath readFile t c filePath a logger) =
     (case readFile filePath of
        Inl e \<Rightarrow> Rejected e
      | Inr bytes \<Rightarrow>
          (case store t c (a\<lparr>file' := Some (FileBuffer bytes)\<rparr>) logger of
             Inl e \<Rightarrow> Rejected e
           | Inr p \<Rightarrow> Resolved JUndefined))"
  by (simp add: storeFromPath_def Let_def split: sum.splits)

text \<open>
  Claim C2 says that the promise of \<open>storeFromPath\<close> resolves to what \<open>store\<close> resolves
  to and rejects as \<open>store\<close> rejects. The file is read and \<open>store\<close> is called with
  \<open>args.file\<close> set to its bytes, but the promise returned resolves to \<open>undefined\<close> in
  both cases: with a stub whose \<open>store\<close> resolves with \<open>{fingerprint: 'fp1'}\<close>, and
  with a stub whose \<open>store\<close> rejects with \<open>ENOFINGERPRINT\<close>.
\<close>

theorem storeFromPath_drops_result:
  "storeFromPath test_readFile
     (stub_transport (Resolved []) (Resolved [(''fingerprint'', JStr (js ''fp1''))]))
     userFileStoreClient (js ''test-data/test-file'') (test_args None None) JNull
   = \<lparr>returned = Resolved JUndefined,
      args_after = test_args (Some (FileBuffer (utf8_write (js ''testFileContents'')))) None,
      store_call = Some (Inr (Resolved [(''fingerprint'', JStr (js ''fp1''))]))\<rparr>
   \<and> storeFromPath test_readFile (stub_transport (Resolved []) (Resolved []))
     userFileStoreClient (js ''test-data/test-file'') (test_args None None) JNull
   = \<lparr>returned = Resolved JUndefined,
      args_after = test_args (Some (FileBuffer (utf8_write (js ''testFileContents'')))) None,
      store_call = Some (Inr (Rejected
        (FBUserFileStoreClientError (CodeNum 500) ''ENOFINGERPRINT'')))\<rparr>"
  by (simp add: storeFromPath_def test_readFile_def Let_def store_def store_request_def
      store_file_def stub_transport_def promise_then_def store_then_def js_get_def
      throwRequestError_def test_args_def js_def)

end
